theory Spec2Isabelle
  imports Main
begin

section \<open>Persisted data: the four tables of the migration\<close>

text \<open>
  The migration (\<^verbatim>\<open>CREATE TABLE public.projects\<close> and the three tables after it) declares
  the persisted state. Identifiers are UUIDs drawn by \<^verbatim>\<open>gen_random_uuid()\<close>; they are modelled
  as natural numbers and a generator that returns a number not yet used in the table.
  The timestamp columns play no part in any operation of the screens and are left out.
  Row-level security is not modelled: every request is taken to be issued by the owner of
  the rows it touches.
\<close>

type_synonym uuid = nat
type_synonym error = string

datatype document_type = Docx | Pptx

datatype status = Draft | Generating | Completed

record project_row =
  p_id :: uuid
  p_user_id :: uuid
  p_document_type :: document_type
  p_topic :: string
  p_status :: status

record section_row =
  s_id :: uuid
  s_project_id :: uuid
  s_order_index :: int
  s_title :: string
  s_content :: "string option"
  s_is_generated :: bool

record refinement_row =
  r_id :: uuid
  r_section_id :: uuid
  r_prompt :: string
  r_previous_content :: "string option"
  r_new_content :: string

record feedback_row =
  f_id :: uuid
  f_section_id :: uuid
  f_is_liked :: "bool option"
  f_comment :: "string option"

record db =
  projects :: "project_row list"
  sections :: "section_row list"
  refinement_history :: "refinement_row list"
  feedback :: "feedback_row list"

definition empty_db :: db where
  "empty_db = \<lparr>projects = [], sections = [], refinement_history = [], feedback = []\<rparr>"

definition gen_random_uuid :: "uuid list \<Rightarrow> uuid" where
  "gen_random_uuid used = Suc (fold max used 0)"

definition fk_violation :: error where
  "fk_violation = ''violates foreign key constraint''"


section \<open>The store client\<close>

text \<open>
  Every call of the store client resolves to a pair of data and error; it does not throw.
  Whether the store carries a request out is decided outside the program, so each
  primitive takes that outcome as its first argument: \<open>None\<close> when the store accepts the
  request, \<open>Some e\<close> when it answers with the error \<open>e\<close> and changes nothing. An accepted
  insert is still subject to the foreign keys of the schema.
\<close>

definition insert_project ::
  "error option \<Rightarrow> uuid \<Rightarrow> document_type \<Rightarrow> string \<Rightarrow> status \<Rightarrow> db \<Rightarrow> db \<times> (error + project_row)" where
  "insert_project outcome uid dt tp st d =
     (case outcome of
        Some e \<Rightarrow> (d, Inl e)
      | None \<Rightarrow>
          let row = \<lparr>p_id = gen_random_uuid (map p_id (projects d)), p_user_id = uid,
                     p_document_type = dt, p_topic = tp, p_status = st\<rparr>
          in (d\<lparr>projects := projects d @ [row]\<rparr>, Inr row))"

record section_insert =
  si_project_id :: uuid
  si_title :: string
  si_order_index :: int

definition new_section_rows :: "uuid \<Rightarrow> section_insert list \<Rightarrow> section_row list" where
  "new_section_rows base rows =
     map (\<lambda>(k, r). \<lparr>s_id = base + k, s_project_id = si_project_id r,
                     s_order_index = si_order_index r, s_title = si_title r,
                     s_content = None, s_is_generated = False\<rparr>)
         (enumerate 0 rows)"

definition insert_sections :: "error option \<Rightarrow> section_insert list \<Rightarrow> db \<Rightarrow> db \<times> error option" where
  "insert_sections outcome rows d =
     (case outcome of
        Some e \<Rightarrow> (d, Some e)
      | None \<Rightarrow>
          if list_ex (\<lambda>r. si_project_id r \<notin> set (map p_id (projects d))) rows
          then (d, Some fk_violation)
          else (d\<lparr>sections := sections d @
                     new_section_rows (gen_random_uuid (map s_id (sections d))) rows\<rparr>, None))"

definition update_project_status :: "error option \<Rightarrow> uuid \<Rightarrow> status \<Rightarrow> db \<Rightarrow> db \<times> error option" where
  "update_project_status outcome pid st d =
     (case outcome of
        Some e \<Rightarrow> (d, Some e)
      | None \<Rightarrow>
          (d\<lparr>projects := map (\<lambda>p. if p_id p = pid then p\<lparr>p_status := st\<rparr> else p) (projects d)\<rparr>,
           None))"

definition insert_refinement ::
  "error option \<Rightarrow> uuid \<Rightarrow> string \<Rightarrow> string option \<Rightarrow> string \<Rightarrow> db \<Rightarrow> db \<times> error option" where
  "insert_refinement outcome sid prompt previous new d =
     (case outcome of
        Some e \<Rightarrow> (d, Some e)
      | None \<Rightarrow>
          if sid \<notin> set (map s_id (sections d)) then (d, Some fk_violation)
          else (d\<lparr>refinement_history := refinement_history d @
                     [\<lparr>r_id = gen_random_uuid (map r_id (refinement_history d)),
                       r_section_id = sid, r_prompt = prompt,
                       r_previous_content = previous, r_new_content = new\<rparr>]\<rparr>, None))"

definition update_section_content :: "error option \<Rightarrow> uuid \<Rightarrow> string \<Rightarrow> db \<Rightarrow> db \<times> error option" where
  "update_section_content outcome sid new d =
     (case outcome of
        Some e \<Rightarrow> (d, Some e)
      | None \<Rightarrow>
          (d\<lparr>sections := map (\<lambda>s. if s_id s = sid then s\<lparr>s_content := Some new\<rparr> else s) (sections d)\<rparr>,
           None))"

text \<open>
  \<^verbatim>\<open>upsert\<close> without an \<^verbatim>\<open>onConflict\<close> option resolves conflicts on the primary key. The
  feedback table has the primary key \<^verbatim>\<open>id\<close> and no uniqueness constraint on
  \<^verbatim>\<open>section_id\<close> (only the plain index \<^verbatim>\<open>idx_feedback_section_id\<close>). A payload names the
  columns it sets; \<open>fp_id = None\<close> is a payload without the key, for which the column
  default draws a new identifier. On a conflict the columns the payload names are
  overwritten and the others are kept.
\<close>

record feedback_payload =
  fp_id :: "uuid option"
  fp_section_id :: uuid
  fp_is_liked :: "bool option"
  fp_comment :: "string option"

definition merge_feedback :: "feedback_payload \<Rightarrow> feedback_row \<Rightarrow> feedback_row" where
  "merge_feedback pl row =
     row\<lparr>f_section_id := fp_section_id pl,
         f_is_liked := (case fp_is_liked pl of None \<Rightarrow> f_is_liked row | Some b \<Rightarrow> Some b),
         f_comment := (case fp_comment pl of None \<Rightarrow> f_comment row | Some c \<Rightarrow> Some c)\<rparr>"

definition upsert_feedback :: "error option \<Rightarrow> feedback_payload \<Rightarrow> db \<Rightarrow> db \<times> error option" where
  "upsert_feedback outcome pl d =
     (case outcome of
        Some e \<Rightarrow> (d, Some e)
      | None \<Rightarrow>
          if fp_section_id pl \<notin> set (map s_id (sections d)) then (d, Some fk_violation)
          else
            (case fp_id pl of
               Some i \<Rightarrow>
                 if i \<in> set (map f_id (feedback d))
                 then (d\<lparr>feedback := map (\<lambda>row. if f_id row = i then merge_feedback pl row else row)
                                           (feedback d)\<rparr>, None)
                 else (d\<lparr>feedback := feedback d @
                            [\<lparr>f_id = i, f_section_id = fp_section_id pl,
                              f_is_liked = fp_is_liked pl, f_comment = fp_comment pl\<rparr>]\<rparr>, None)
             | None \<Rightarrow>
                 (d\<lparr>feedback := feedback d @
                      [\<lparr>f_id = gen_random_uuid (map f_id (feedback d)),
                        f_section_id = fp_section_id pl,
                        f_is_liked = fp_is_liked pl, f_comment = fp_comment pl\<rparr>]\<rparr>, None)))"

text \<open>
  The schema lets the owner delete a section (policy \<^verbatim>\<open>Users can delete sections in their
  projects\<close>); the rows that reference it go with it (\<^verbatim>\<open>ON DELETE CASCADE\<close>). No screen
  issues this request.
\<close>

definition delete_section :: "uuid \<Rightarrow> db \<Rightarrow> db" where
  "delete_section sid d =
     d\<lparr>sections := filter (\<lambda>s. s_id s \<noteq> sid) (sections d),
       refinement_history := filter (\<lambda>r. r_section_id r \<noteq> sid) (refinement_history d),
       feedback := filter (\<lambda>f. f_section_id f \<noteq> sid) (feedback d)\<rparr>"


section \<open>Strings\<close>

text \<open>
  \<^verbatim>\<open>String.prototype.trim\<close> strips white space and line terminators from both ends. A
  character of the model is a code unit below 256, read as the code point of that number:
  the white space among these is the space, tab, line feed, vertical tab, form feed,
  carriage return and the no-break space U+00A0. The white space above U+00FF (U+1680, U+2000
  to U+200A, U+2028, U+2029, U+202F, U+205F, U+3000, U+FEFF) cannot occur in a string of the
  model.
\<close>

definition is_space :: "char \<Rightarrow> bool" where
  "is_space c =
     (c \<in> set [CHR '' '', CHR 0x09, CHR 0x0A, CHR 0x0B, CHR 0x0C, CHR 0x0D, CHR 0xA0])"

definition trim :: "string \<Rightarrow> string" where
  "trim s = rev (dropWhile is_space (rev (dropWhile is_space s)))"


section \<open>The configuration screen (Configure)\<close>

text \<open>
  The state of the form: the document type, the topic and the list of section titles.
  Typing into a field (\<^verbatim>\<open>setTopic\<close>, \<^verbatim>\<open>updateSection\<close>) replaces the topic or one title
  of the list by the text typed; the two busy flags only disable buttons. Neither is
  modelled as a function.
\<close>

record configure =
  documentType :: document_type
  topic :: string
  cfg_sections :: "string list"

definition initial_configure :: configure where
  "initial_configure = \<lparr>documentType = Docx, topic = '''', cfg_sections = ['''']\<rparr>"

definition addSection :: "configure \<Rightarrow> configure" where
  "addSection c = c\<lparr>cfg_sections := cfg_sections c @ ['''']\<rparr>"

definition removeSection :: "nat \<Rightarrow> configure \<Rightarrow> configure" where
  "removeSection index c =
     (if length (cfg_sections c) > 1
      then c\<lparr>cfg_sections := map snd (filter (\<lambda>(i, _). i \<noteq> index) (enumerate 0 (cfg_sections c)))\<rparr>
      else c)"

text \<open>
  Modelled from the spec: the generate-outline edge function, which is not among the
  sources. Section 4.1: its input is the topic and the document kind, its output an ordered
  sequence of titles, it has no persistence side effect, and an error of the upstream call
  surfaces as a failure. What the upstream call answers is the argument \<open>upstream\<close>.
\<close>

definition generate_outline_fn ::
  "(error + string list) \<Rightarrow> string \<Rightarrow> document_type \<Rightarrow> db \<Rightarrow> db \<times> (error + string list)" where
  "generate_outline_fn upstream tp dt d = (d, upstream)"

definition generateOutline :: "(error + string list) \<Rightarrow> configure \<Rightarrow> db \<Rightarrow> configure \<times> db" where
  "generateOutline upstream c d =
     (if trim (topic c) = [] then (c, d)
      else
        (case generate_outline_fn upstream (topic c) (documentType c) d of
           (d', Inl e) \<Rightarrow> (c, d')
         | (d', Inr outline) \<Rightarrow> (c\<lparr>cfg_sections := outline\<rparr>, d')))"

datatype submit_result =
    FillInAllFields
  | MustBeLoggedIn
  | FailedToCreate error
  | Created uuid

record submit_env =
  project_insert :: "error option"
  sections_insert :: "error option"

definition sectionsData :: "uuid \<Rightarrow> string list \<Rightarrow> section_insert list" where
  "sectionsData pid titles =
     map (\<lambda>(index, title). \<lparr>si_project_id = pid, si_title = trim title,
                             si_order_index = int index\<rparr>)
         (enumerate 0 titles)"

definition handleSubmit ::
  "submit_env \<Rightarrow> uuid option \<Rightarrow> configure \<Rightarrow> db \<Rightarrow> db \<times> submit_result" where
  "handleSubmit env user c d =
     (if trim (topic c) = [] \<or> list_ex (\<lambda>s. trim s = []) (cfg_sections c)
      then (d, FillInAllFields)
      else
        (case user of
           None \<Rightarrow> (d, MustBeLoggedIn)
         | Some uid \<Rightarrow>
             (case insert_project (project_insert env) uid (documentType c) (trim (topic c)) Draft d of
                (d1, Inl e) \<Rightarrow> (d1, FailedToCreate e)
              | (d1, Inr project) \<Rightarrow>
                  (case insert_sections (sections_insert env)
                          (sectionsData (p_id project) (cfg_sections c)) d1 of
                     (d2, Some e) \<Rightarrow> (d2, FailedToCreate e)
                   | (d2, None) \<Rightarrow> (d2, Created (p_id project))))))"

section \<open>The editor screen (Editor)\<close>

text \<open>
  The state of the editor: the loaded project (\<open>None\<close> until it is loaded), the loaded
  sections, and the refinement prompt and the comment typed for each section. The busy flags
  are left out. Each handler returns what it leaves of the editor state and of the persisted
  state, and the notification it shows where that tells outcomes apart.
\<close>

record editor =
  ed_project :: "project_row option"
  ed_sections :: "section_row list"
  refinementPrompts :: "uuid \<rightharpoonup> string"
  comments :: "uuid \<rightharpoonup> string"

definition initial_editor :: editor where
  "initial_editor = \<lparr>ed_project = None, ed_sections = [], refinementPrompts = Map.empty,
                      comments = Map.empty\<rparr>"

record load_env =
  project_select :: "error option"
  sections_select :: "error option"

text \<open>
  The sections of a project as the query \<^verbatim>\<open>.eq('project_id', id).order('order_index')\<close>
  returns them: ascending by order position. The model keeps rows of equal position in
  table order; the schema does not make positions unique.
\<close>

definition select_sections :: "uuid \<Rightarrow> db \<Rightarrow> section_row list" where
  "select_sections pid d = sort_key s_order_index (filter (\<lambda>s. s_project_id s = pid) (sections d))"

definition loadProject :: "load_env \<Rightarrow> uuid \<Rightarrow> editor \<Rightarrow> db \<Rightarrow> editor" where
  "loadProject env pid ed d =
     (case project_select env of
        Some e \<Rightarrow> ed
      | None \<Rightarrow>
          (case find (\<lambda>p. p_id p = pid) (projects d) of
             None \<Rightarrow> ed
           | Some projectData \<Rightarrow>
               (case sections_select env of
                  Some e \<Rightarrow> ed\<lparr>ed_project := Some projectData\<rparr>
                | None \<Rightarrow> ed\<lparr>ed_project := Some projectData,
                             ed_sections := select_sections pid d\<rparr>)))"

subsection \<open>Bulk content generation\<close>

text \<open>
  Modelled from the spec: the generate-content edge function, which is not among the
  sources. Section 4.2: its input is the project id, the topic, the document kind and the
  ordered list of (section id, title) pairs; upon success every listed section acquires
  generated content and its generated flag is set; a failure surfaces as an error. The
  status writes are those of the caller below. What the upstream call answers is the
  argument \<open>upstream\<close>: an error, or the content for each section id.
\<close>

datatype gen_outcome = GenFailed error | GenOk "uuid \<Rightarrow> string"

definition generate_content_fn ::
  "gen_outcome \<Rightarrow> uuid \<Rightarrow> string \<Rightarrow> document_type \<Rightarrow> (uuid \<times> string) list \<Rightarrow> db \<Rightarrow> db \<times> error option" where
  "generate_content_fn upstream projectId tp dt listed d =
     (case upstream of
        GenFailed e \<Rightarrow> (d, Some e)
      | GenOk content_of \<Rightarrow>
          (d\<lparr>sections := map (\<lambda>s. if s_id s \<in> set (map fst listed)
                                   then s\<lparr>s_content := Some (content_of (s_id s)),
                                          s_is_generated := True\<rparr>
                                   else s) (sections d)\<rparr>, None))"

record gen_env =
  write_generating :: "error option"
  gen_upstream :: gen_outcome
  write_completed :: "error option"
  write_draft :: "error option"
  reload :: load_env

text \<open>
  \<open>generateAllContent\<close> returns the editor state it leaves and the persisted state after
  each of its three awaited requests, in order; the list is empty when it returns at once.
\<close>

definition generateAllContent :: "gen_env \<Rightarrow> uuid \<Rightarrow> editor \<Rightarrow> db \<Rightarrow> editor \<times> db list" where
  "generateAllContent env pid ed d =
     (case ed_project ed of
        None \<Rightarrow> (ed, [])
      | Some project \<Rightarrow>
          let d1 = fst (update_project_status (write_generating env) pid Generating d);
              invoked = generate_content_fn (gen_upstream env) pid (p_topic project)
                          (p_document_type project)
                          (map (\<lambda>s. (s_id s, s_title s)) (ed_sections ed)) d1;
              d2 = fst invoked
          in (case snd invoked of
                Some e \<Rightarrow>
                  (ed, [d1, d2, fst (update_project_status (write_draft env) pid Draft d2)])
              | None \<Rightarrow>
                  let d3 = fst (update_project_status (write_completed env) pid Completed d2)
                  in (loadProject (reload env) pid ed d3, [d1, d2, d3])))"

definition final_db :: "db \<Rightarrow> db list \<Rightarrow> db" where
  "final_db d tr = last (d # tr)"

definition status_of :: "uuid \<Rightarrow> db \<Rightarrow> status option" where
  "status_of pid d = map_option p_status (find (\<lambda>p. p_id p = pid) (projects d))"

subsection \<open>The refine-content endpoint\<close>

datatype http_method = OPTIONS | POST

record refine_body =
  rb_sectionId :: uuid
  rb_prompt :: string
  rb_currentContent :: "string option"
  rb_title :: string

record refine_request =
  rq_method :: http_method
  rq_body :: "error + refine_body"

text \<open>
  What the call of the AI gateway comes to: the request fails, the response is not ok (with
  its status text), the body cannot be read as a completion, or the completion's first
  choice carries the content, a string.
\<close>

datatype ai_response =
    FetchFailed error
  | NotOk string
  | Unparsable error
  | Completion string

record refine_env =
  LOVABLE_API_KEY :: "string option"
  ai :: ai_response
  history_insert :: "error option"
  section_update :: "error option"

datatype refine_response = PreflightOk | Success string | ErrorResponse string

definition refine_content_handler :: "refine_env \<Rightarrow> refine_request \<Rightarrow> db \<Rightarrow> db \<times> refine_response" where
  "refine_content_handler env req d =
     (if rq_method req = OPTIONS then (d, PreflightOk)
      else
        (case rq_body req of
           Inl e \<Rightarrow> (d, ErrorResponse e)
         | Inr body \<Rightarrow>
             if (case LOVABLE_API_KEY env of None \<Rightarrow> True | Some k \<Rightarrow> k = [])
             then (d, ErrorResponse ''LOVABLE_API_KEY not configured'')
             else
               (case ai env of
                  FetchFailed e \<Rightarrow> (d, ErrorResponse e)
                | NotOk statusText \<Rightarrow> (d, ErrorResponse (''AI API error: '' @ statusText))
                | Unparsable e \<Rightarrow> (d, ErrorResponse e)
                | Completion refinedContent \<Rightarrow>
                    let d1 = fst (insert_refinement (history_insert env) (rb_sectionId body)
                                    (rb_prompt body) (rb_currentContent body) refinedContent d);
                        d2 = fst (update_section_content (section_update env) (rb_sectionId body)
                                    refinedContent d1)
                    in (d2, Success refinedContent))))"

text \<open>
  \<^verbatim>\<open>supabase.functions.invoke\<close> posts the body to the endpoint and gives an error back when
  the response status is not 2xx. A loss of the request or of the response on the way is
  not modelled.
\<close>

definition invoke_refine_content :: "refine_env \<Rightarrow> refine_body \<Rightarrow> db \<Rightarrow> db \<times> (error + string)" where
  "invoke_refine_content env body d =
     (case refine_content_handler env \<lparr>rq_method = POST, rq_body = Inr body\<rparr> d of
        (d', Success c) \<Rightarrow> (d', Inr c)
      | (d', ErrorResponse e) \<Rightarrow> (d', Inl e)
      | (d', PreflightOk) \<Rightarrow> (d', Inr ''ok''))"

datatype toast =
    NoToast
  | EnterRefinementPrompt
  | FailedToRefine
  | SectionRefined
  | FeedbackRecorded
  | CommentSaved

definition refineSection ::
  "refine_env \<Rightarrow> load_env \<Rightarrow> uuid \<Rightarrow> uuid \<Rightarrow> editor \<Rightarrow> db \<Rightarrow> (editor \<times> db) \<times> toast" where
  "refineSection env lenv pid sectionId ed d =
     (case refinementPrompts ed sectionId of
        None \<Rightarrow> ((ed, d), EnterRefinementPrompt)
      | Some prompt \<Rightarrow>
          if trim prompt = [] then ((ed, d), EnterRefinementPrompt)
          else
            (case find (\<lambda>s. s_id s = sectionId) (ed_sections ed) of
               None \<Rightarrow> ((ed, d), NoToast)
             | Some section \<Rightarrow>
                 (case invoke_refine_content env
                         \<lparr>rb_sectionId = sectionId, rb_prompt = prompt,
                          rb_currentContent = s_content section, rb_title = s_title section\<rparr> d of
                    (d', Inl e) \<Rightarrow> ((ed, d'), FailedToRefine)
                  | (d', Inr data) \<Rightarrow>
                      (((loadProject lenv pid ed d')
                          \<lparr>refinementPrompts := (refinementPrompts ed)(sectionId \<mapsto> '''')\<rparr>, d'),
                       SectionRefined))))"

subsection \<open>Feedback\<close>

definition handleFeedback :: "error option \<Rightarrow> uuid \<Rightarrow> bool \<Rightarrow> db \<Rightarrow> db \<times> toast" where
  "handleFeedback outcome sectionId isLiked d =
     (fst (upsert_feedback outcome
             \<lparr>fp_id = None, fp_section_id = sectionId, fp_is_liked = Some isLiked,
              fp_comment = None\<rparr> d),
      FeedbackRecorded)"

definition saveComment :: "error option \<Rightarrow> uuid \<Rightarrow> editor \<Rightarrow> db \<Rightarrow> db \<times> toast" where
  "saveComment outcome sectionId ed d =
     (case comments ed sectionId of
        None \<Rightarrow> (d, NoToast)
      | Some comment \<Rightarrow>
          if trim comment = [] then (d, NoToast)
          else
            (fst (upsert_feedback outcome
                    \<lparr>fp_id = None, fp_section_id = sectionId, fp_is_liked = None,
                     fp_comment = Some (trim comment)\<rparr> d),
             CommentSaved))"

subsection \<open>Export\<close>

text \<open>
  The two document builders are given their input in one piece; what is modelled is that
  input. A paragraph of the word-processor document is a heading of level 1 or 2, or a body
  paragraph holding one text run. A slide is the list of its text boxes, each with the
  options it is added with: \<open>TopicBox\<close> stands for the title slide's options (44 pt, bold,
  centred), \<open>TitleBox\<close> for a section title's (32 pt, bold) and \<open>BodyBox\<close> for a section
  body's (16 pt).
\<close>

datatype docx_paragraph = Heading1 string | Heading2 string | Body string

datatype box_options = TopicBox | TitleBox | BodyBox

type_synonym slide = "(string \<times> box_options) list"

datatype export_file = DocxFile string "docx_paragraph list" | PptxFile string "slide list"

definition or_empty :: "string option \<Rightarrow> string" where
  "or_empty content = (case content of None \<Rightarrow> '''' | Some c \<Rightarrow> if c = [] then '''' else c)"

definition exportDocument :: "editor \<Rightarrow> export_file option" where
  "exportDocument ed =
     (case ed_project ed of
        None \<Rightarrow> None
      | Some project \<Rightarrow>
          if p_document_type project = Docx
          then Some (DocxFile (p_topic project @ ''.docx'')
                       (Heading1 (p_topic project) #
                        concat (map (\<lambda>section. [Heading2 (s_title section),
                                                 Body (or_empty (s_content section))])
                                    (ed_sections ed))))
          else Some (PptxFile (p_topic project @ ''.pptx'')
                       ([(p_topic project, TopicBox)] #
                        map (\<lambda>section. [(s_title section, TitleBox),
                                        (or_empty (s_content section), BodyBox)])
                            (ed_sections ed))))"

subsection \<open>What an exported file shows\<close>

text \<open>
  The contents of an exported file in reading order, each text with its role: the topic
  (a level-1 heading, or a box of the title slide), a section title (a level-2 heading, or
  the upper box of a slide) or a section body.
\<close>

datatype block_kind = TopicBlock | TitleBlock | BodyBlock

fun paragraph_block :: "docx_paragraph \<Rightarrow> block_kind \<times> string" where
  "paragraph_block (Heading1 t) = (TopicBlock, t)"
| "paragraph_block (Heading2 t) = (TitleBlock, t)"
| "paragraph_block (Body t) = (BodyBlock, t)"

fun box_block :: "string \<times> box_options \<Rightarrow> block_kind \<times> string" where
  "box_block (t, TopicBox) = (TopicBlock, t)"
| "box_block (t, TitleBox) = (TitleBlock, t)"
| "box_block (t, BodyBox) = (BodyBlock, t)"

fun blocks :: "export_file \<Rightarrow> (block_kind \<times> string) list" where
  "blocks (DocxFile name ps) = map paragraph_block ps"
| "blocks (PptxFile name slides) = concat (map (map box_block) slides)"

definition texts_of :: "block_kind \<Rightarrow> export_file \<Rightarrow> string list" where
  "texts_of k f = map snd (filter (\<lambda>b. fst b = k) (blocks f))"

fun units :: "export_file \<Rightarrow> nat" where
  "units (DocxFile name ps) = length ps"
| "units (PptxFile name slides) = length slides"


section \<open>Sequences of user actions\<close>

text \<open>
  A user action opens the screen it belongs to and triggers one handler. The editor is
  opened by \<open>loadProject\<close> on the project's id; its Generate button is rendered only while
  no loaded section carries the generated flag, and the refine, like and comment controls of
  a section only when the loaded section has content. An action whose control is not
  rendered does nothing. \<open>perform\<close> gives the persisted states after the awaited requests
  of the action, \<open>run\<close> those of a sequence of actions.
\<close>

definition has_content :: "uuid \<Rightarrow> editor \<Rightarrow> bool" where
  "has_content sid ed = list_ex (\<lambda>s. s_id s = sid \<and> or_empty (s_content s) \<noteq> []) (ed_sections ed)"

datatype action =
    Submit submit_env "uuid option" configure
  | Generate load_env gen_env uuid
  | Refine load_env refine_env uuid uuid string
  | Like load_env "error option" uuid uuid bool
  | Comment load_env "error option" uuid uuid string

fun perform :: "action \<Rightarrow> db \<Rightarrow> db list" where
  "perform (Submit env user c) d = [fst (handleSubmit env user c d)]"
| "perform (Generate lenv env pid) d =
     (let ed = loadProject lenv pid initial_editor d
      in if list_ex s_is_generated (ed_sections ed) then []
         else snd (generateAllContent env pid ed d))"
| "perform (Refine lenv env pid sid prompt) d =
     (let ed = loadProject lenv pid initial_editor d
      in if has_content sid ed
         then [snd (fst (refineSection env lenv pid sid
                           (ed\<lparr>refinementPrompts := (refinementPrompts ed)(sid \<mapsto> prompt)\<rparr>) d))]
         else [])"
| "perform (Like lenv outcome pid sid isLiked) d =
     (let ed = loadProject lenv pid initial_editor d
      in if has_content sid ed then [fst (handleFeedback outcome sid isLiked d)] else [])"
| "perform (Comment lenv outcome pid sid comment) d =
     (let ed = loadProject lenv pid initial_editor d
      in if has_content sid ed
         then [fst (saveComment outcome sid (ed\<lparr>comments := (comments ed)(sid \<mapsto> comment)\<rparr>) d)]
         else [])"

fun run :: "action list \<Rightarrow> db \<Rightarrow> db list" where
  "run [] d = []"
| "run (a # as) d = (let tr = perform a d in tr @ run as (final_db d tr))"

definition allowed_transition :: "status \<Rightarrow> status \<Rightarrow> bool" where
  "allowed_transition a b =
     (a = Draft \<and> b = Generating \<or> a = Generating \<and> b = Completed \<or> a = Generating \<and> b = Draft)"

text \<open>
  The successive observations of one project's status (\<open>None\<close> while the project does not
  exist) follow the lifecycle when the first status seen is \<open>Draft\<close> and every change is
  an allowed transition.
\<close>

fun lifecycle_ok :: "status option list \<Rightarrow> bool" where
  "lifecycle_ok (None # Some b # rest) = (b = Draft \<and> lifecycle_ok (Some b # rest))"
| "lifecycle_ok (Some a # Some b # rest) =
     ((a = b \<or> allowed_transition a b) \<and> lifecycle_ok (Some b # rest))"
| "lifecycle_ok (x # y # rest) = lifecycle_ok (y # rest)"
| "lifecycle_ok rest = True"

text \<open>
  An action is carried out when the store applies every read and write that decides a
  status, and a submission moreover has a list of titles that is not empty. \<open>step_ok\<close> is
  the lifecycle between two successive observations. A persisted state is settled when every
  project has a section and is either in \<open>Draft\<close>, or in \<open>Completed\<close> with a section that
  carries the generated flag; \<open>section_flags\<close> lists the project and the flag of every section.
\<close>

fun carried_out :: "action \<Rightarrow> bool" where
  "carried_out (Submit env user c) =
     (project_insert env = None \<and> sections_insert env = None \<and> cfg_sections c \<noteq> [])"
| "carried_out (Generate lenv env pid) =
     (project_select lenv = None \<and> sections_select lenv = None \<and> write_generating env = None \<and>
      write_completed env = None \<and> write_draft env = None)"
| "carried_out (Refine lenv env pid sid prompt) = True"
| "carried_out (Like lenv outcome pid sid isLiked) = True"
| "carried_out (Comment lenv outcome pid sid comment) = True"

definition step_ok :: "status option \<Rightarrow> status option \<Rightarrow> bool" where
  "step_ok x y =
     (case (x, y) of
        (None, Some b) \<Rightarrow> b = Draft
      | (Some a, Some b) \<Rightarrow> a = b \<or> allowed_transition a b
      | _ \<Rightarrow> True)"

definition section_flags :: "db \<Rightarrow> (uuid \<times> bool) list" where
  "section_flags d = map (\<lambda>s. (s_project_id s, s_is_generated s)) (sections d)"

definition settled :: "db \<Rightarrow> bool" where
  "settled d =
     (\<forall>p \<in> set (projects d).
        p_id p \<in> set (map fst (section_flags d)) \<and>
        (p_status p = Draft \<or>
         p_status p = Completed \<and> (p_id p, True) \<in> set (section_flags d)))"

definition order_positions :: "db \<Rightarrow> (uuid \<times> int) list" where
  "order_positions d = map (\<lambda>s. (s_id s, s_order_index s)) (sections d)"

section \<open>Sample data\<close>

definition ok_submit :: submit_env where
  "ok_submit = \<lparr>project_insert = None, sections_insert = None\<rparr>"

definition ok_load :: load_env where
  "ok_load = \<lparr>project_select = None, sections_select = None\<rparr>"

definition ev_configure :: configure where
  "ev_configure = \<lparr>documentType = Docx, topic = ''EV market analysis'',
                    cfg_sections = [''A'', '' B '', ''C'']\<rparr>"

definition ev_project :: project_row where
  "ev_project = \<lparr>p_id = 1, p_user_id = 7, p_document_type = Docx,
                  p_topic = ''EV market analysis'', p_status = Draft\<rparr>"

definition ev_section :: "uuid \<Rightarrow> int \<Rightarrow> string \<Rightarrow> string option \<Rightarrow> section_row" where
  "ev_section i k t c = \<lparr>s_id = i, s_project_id = 1, s_order_index = k, s_title = t,
                          s_content = c, s_is_generated = (c \<noteq> None)\<rparr>"

definition ev_db :: db where
  "ev_db = \<lparr>projects = [ev_project],
            sections = [ev_section 1 0 ''A'' None, ev_section 2 1 ''B'' None,
                        ev_section 3 2 ''C'' None],
            refinement_history = [], feedback = []\<rparr>"

definition ev_written_db :: db where
  "ev_written_db = \<lparr>projects = [ev_project\<lparr>p_status := Completed\<rparr>],
            sections = [ev_section 1 0 ''A'' (Some ''first draft''), ev_section 2 1 ''B'' None,
                        ev_section 3 2 ''C'' (Some ''third'')],
            refinement_history = [], feedback = []\<rparr>"

definition ev_editor :: editor where
  "ev_editor = \<lparr>ed_project = Some ev_project, ed_sections = sections ev_db,
                 refinementPrompts = Map.empty, comments = Map.empty\<rparr>"

definition ev_written_editor :: editor where
  "ev_written_editor = \<lparr>ed_project = Some (ev_project\<lparr>p_status := Completed\<rparr>),
                         ed_sections = sections ev_written_db,
                         refinementPrompts = Map.empty, comments = Map.empty\<rparr>"

definition ev_deck_editor :: editor where
  "ev_deck_editor = ev_written_editor
     \<lparr>ed_project := Some (ev_project\<lparr>p_document_type := Pptx, p_status := Completed\<rparr>)\<rparr>"

definition refine_ok :: "string \<Rightarrow> refine_env" where
  "refine_ok answer = \<lparr>LOVABLE_API_KEY = Some ''key'', ai = Completion answer,
                        history_insert = None, section_update = None\<rparr>"

definition refine_post :: "string \<Rightarrow> refine_request" where
  "refine_post p = \<lparr>rq_method = POST,
                     rq_body = Inr \<lparr>rb_sectionId = 1, rb_prompt = p,
                                    rb_currentContent = Some ''first draft'', rb_title = ''A''\<rparr>\<rparr>"

definition gen_ok :: gen_env where
  "gen_ok = \<lparr>write_generating = None, gen_upstream = GenOk (\<lambda>i. ''generated''),
             write_completed = None, write_draft = None, reload = ok_load\<rparr>"

definition gen_failing :: gen_env where
  "gen_failing = \<lparr>write_generating = None, gen_upstream = GenFailed ''upstream failed'',
                  write_completed = None, write_draft = None, reload = ok_load\<rparr>"



section \<open>Properties\<close>

subsection \<open>Identifiers\<close>

lemma fold_max_ge: "a \<le> fold max xs (a::nat) \<and> (\<forall>x \<in> set xs. x \<le> fold max xs a)"
proof (induction xs arbitrary: a)
  case Nil
  show ?case by simp
next
  case (Cons y ys)
  have "max y a \<le> fold max ys (max y a)" using Cons.IH by blast
  moreover have "\<forall>x \<in> set ys. x \<le> fold max ys (max y a)" using Cons.IH by blast
  ultimately show ?case by auto
qed

lemma gen_random_uuid_fresh: "gen_random_uuid used \<notin> set used"
proof
  assume "gen_random_uuid used \<in> set used"
  then have "gen_random_uuid used \<le> fold max used 0" using fold_max_ge by blast
  then show False by (simp add: gen_random_uuid_def)
qed

subsection \<open>Export\<close>

lemma filter_title_blocks:
  "filter (\<lambda>b. fst b = TitleBlock) (concat (map (\<lambda>s. [(TitleBlock, f s), (BodyBlock, g s)]) xs))
     = map (\<lambda>s. (TitleBlock, f s)) xs"
  by (induction xs) simp_all

lemma filter_body_blocks:
  "filter (\<lambda>b. fst b = BodyBlock) (concat (map (\<lambda>s. [(TitleBlock, f s), (BodyBlock, g s)]) xs))
     = map (\<lambda>s. (BodyBlock, g s)) xs"
  by (induction xs) simp_all

lemma filter_topic_blocks:
  "filter (\<lambda>b. fst b = TopicBlock) (concat (map (\<lambda>s. [(TitleBlock, f s), (BodyBlock, g s)]) xs)) = []"
  by (induction xs) simp_all

lemma length_section_paragraphs:
  "length (concat (map (\<lambda>s. [f s, g s]) xs)) = 2 * length xs"
  by (induction xs) simp_all

lemma or_empty_eq: "or_empty content = (case content of None \<Rightarrow> [] | Some c \<Rightarrow> c)"
  by (simp add: or_empty_def split: option.splits)

lemma exportDocument_file:
  assumes "ed_project ed = Some p"
  shows "exportDocument ed =
           Some (if p_document_type p = Docx
                 then DocxFile (p_topic p @ ''.docx'')
                        (Heading1 (p_topic p) #
                         concat (map (\<lambda>s. [Heading2 (s_title s),
                                            Body (case s_content s of None \<Rightarrow> [] | Some c \<Rightarrow> c)])
                                     (ed_sections ed)))
                 else PptxFile (p_topic p @ ''.pptx'')
                        ([(p_topic p, TopicBox)] #
                         map (\<lambda>s. [(s_title s, TitleBox),
                                    (case s_content s of None \<Rightarrow> [] | Some c \<Rightarrow> c, BodyBox)])
                             (ed_sections ed)))"
  using assms by (simp add: exportDocument_def or_empty_eq)

lemma blocks_exportDocument:
  assumes "ed_project ed = Some p"
  shows "\<exists>f. exportDocument ed = Some f \<and>
           blocks f = (TopicBlock, p_topic p) #
                      concat (map (\<lambda>s. [(TitleBlock, s_title s),
                                         (BodyBlock, case s_content s of None \<Rightarrow> [] | Some c \<Rightarrow> c)])
                                  (ed_sections ed)) \<and>
           units f = (if p_document_type p = Docx then 1 + 2 * length (ed_sections ed)
                      else 1 + length (ed_sections ed))"
  by (simp add: exportDocument_file [OF assms] map_concat comp_def length_section_paragraphs)

lemma sorted_select_sections: "sorted (map s_order_index (select_sections pid d))"
  by (simp add: select_sections_def)

lemma set_select_sections:
  "set (select_sections pid d) = {s \<in> set (sections d). s_project_id s = pid}"
  by (auto simp: select_sections_def)

lemma loadProject_sections:
  assumes "project_select env = None" "sections_select env = None"
    and "find (\<lambda>q. p_id q = pid) (projects d) = Some q"
  shows "loadProject env pid ed0 d = ed0\<lparr>ed_project := Some q, ed_sections := select_sections pid d\<rparr>"
  using assms by (simp add: loadProject_def)

text \<open>
  C1. Whatever project and sections the editor holds, the exported file shows the topic
  exactly once, as the one level-1 heading or the one box of the title slide, followed by one
  title and one body for each section in the order of the section list. The body of a
  section is its content, and the empty string when the content is null. The section list
  that \<open>loadProject\<close> stores is ordered by order position.
\<close>

theorem exportDocument_topic_and_sections_once:
  assumes "ed_project ed = Some p"
  shows "\<exists>f. exportDocument ed = Some f
      \<and> f = (if p_document_type p = Docx
               then DocxFile (p_topic p @ ''.docx'')
                      (Heading1 (p_topic p) #
                       concat (map (\<lambda>s. [Heading2 (s_title s),
                                          Body (case s_content s of None \<Rightarrow> [] | Some c \<Rightarrow> c)])
                                   (ed_sections ed)))
               else PptxFile (p_topic p @ ''.pptx'')
                      ([(p_topic p, TopicBox)] #
                       map (\<lambda>s. [(s_title s, TitleBox),
                                  (case s_content s of None \<Rightarrow> [] | Some c \<Rightarrow> c, BodyBox)])
                           (ed_sections ed)))
      \<and> blocks f = (TopicBlock, p_topic p) #
                   concat (map (\<lambda>s. [(TitleBlock, s_title s),
                                      (BodyBlock, case s_content s of None \<Rightarrow> [] | Some c \<Rightarrow> c)])
                               (ed_sections ed))
      \<and> texts_of TopicBlock f = [p_topic p]
      \<and> texts_of TitleBlock f = map s_title (ed_sections ed)
      \<and> texts_of BodyBlock f =
            map (\<lambda>s. case s_content s of None \<Rightarrow> [] | Some c \<Rightarrow> c) (ed_sections ed)
      \<and> units f = (if p_document_type p = Docx then 1 + 2 * length (ed_sections ed)
                    else 1 + length (ed_sections ed))
      \<and> sorted (map s_order_index (select_sections pid d))
      \<and> (project_select env = None \<and> sections_select env = None \<and>
           find (\<lambda>q. p_id q = pid) (projects d) = Some q \<longrightarrow>
           ed_sections (loadProject env pid ed' d) = select_sections pid d)"
proof -
  let ?body = "\<lambda>s. case s_content s of None \<Rightarrow> [] | Some c \<Rightarrow> c"
  from blocks_exportDocument [OF assms] obtain f where
    f: "exportDocument ed = Some f"
    and b: "blocks f = (TopicBlock, p_topic p) #
                   concat (map (\<lambda>s. [(TitleBlock, s_title s), (BodyBlock, ?body s)])
                               (ed_sections ed))"
    and u: "units f = (if p_document_type p = Docx then 1 + 2 * length (ed_sections ed)
                    else 1 + length (ed_sections ed))"
    by blast
  from f exportDocument_file [OF assms]
  have e: "f = (if p_document_type p = Docx
               then DocxFile (p_topic p @ ''.docx'')
                      (Heading1 (p_topic p) #
                       concat (map (\<lambda>s. [Heading2 (s_title s), Body (?body s)]) (ed_sections ed)))
               else PptxFile (p_topic p @ ''.pptx'')
                      ([(p_topic p, TopicBox)] #
                       map (\<lambda>s. [(s_title s, TitleBox), (?body s, BodyBox)]) (ed_sections ed)))"
    by simp
  have t1: "texts_of TopicBlock f = [p_topic p]"
    by (simp add: texts_of_def b filter_topic_blocks)
  have t2: "texts_of TitleBlock f = map s_title (ed_sections ed)"
    by (simp add: texts_of_def b filter_title_blocks comp_def)
  have t3: "texts_of BodyBlock f = map ?body (ed_sections ed)"
    by (simp add: texts_of_def b filter_body_blocks comp_def)
  have l: "project_select env = None \<and> sections_select env = None \<and>
           find (\<lambda>q. p_id q = pid) (projects d) = Some q \<longrightarrow>
           ed_sections (loadProject env pid ed' d) = select_sections pid d"
    by (simp add: loadProject_sections)
  from f e b t1 t2 t3 u l sorted_select_sections show ?thesis by blast
qed

theorem exportDocument_topic_and_sections_once_witness:
  "exportDocument ev_written_editor =
       Some (DocxFile ''EV market analysis.docx''
              [Heading1 ''EV market analysis'', Heading2 ''A'', Body ''first draft'',
               Heading2 ''B'', Body '''', Heading2 ''C'', Body ''third''])
   \<and> texts_of TopicBlock (the (exportDocument ev_written_editor)) = [''EV market analysis'']
   \<and> texts_of TitleBlock (the (exportDocument ev_written_editor)) = [''A'', ''B'', ''C'']
   \<and> texts_of BodyBlock (the (exportDocument ev_written_editor)) = [''first draft'', '''', ''third'']
   \<and> exportDocument ev_deck_editor =
       Some (PptxFile ''EV market analysis.pptx''
              [[(''EV market analysis'', TopicBox)],
               [(''A'', TitleBox), (''first draft'', BodyBox)],
               [(''B'', TitleBox), ('''', BodyBox)],
               [(''C'', TitleBox), (''third'', BodyBox)]])
   \<and> texts_of BodyBlock (the (exportDocument ev_deck_editor)) = [''first draft'', '''', ''third'']
   \<and> ed_sections (loadProject ok_load 1 initial_editor ev_written_db) = sections ev_written_db"
proof -
  have p1: "ed_project ev_written_editor = Some (ev_project\<lparr>p_status := Completed\<rparr>)"
    by (simp add: ev_written_editor_def)
  have p2: "ed_project ev_deck_editor =
              Some (ev_project\<lparr>p_document_type := Pptx, p_status := Completed\<rparr>)"
    by (simp add: ev_deck_editor_def)
  have l: "project_select ok_load = None \<and> sections_select ok_load = None \<and>
           find (\<lambda>q. p_id q = 1) (projects ev_written_db) = Some (ev_project\<lparr>p_status := Completed\<rparr>)"
    by (simp add: ok_load_def ev_written_db_def ev_project_def)
  have s: "select_sections 1 ev_written_db = sections ev_written_db"
    by (simp add: select_sections_def ev_written_db_def ev_section_def)
  from exportDocument_topic_and_sections_once
         [OF p1, where env = ok_load and pid = 1 and d = ev_written_db and ed' = initial_editor
            and q = "ev_project\<lparr>p_status := Completed\<rparr>"] l s
  have a: "exportDocument ev_written_editor =
       Some (DocxFile ''EV market analysis.docx''
              [Heading1 ''EV market analysis'', Heading2 ''A'', Body ''first draft'',
               Heading2 ''B'', Body '''', Heading2 ''C'', Body ''third''])
   \<and> texts_of TopicBlock (the (exportDocument ev_written_editor)) = [''EV market analysis'']
   \<and> texts_of TitleBlock (the (exportDocument ev_written_editor)) = [''A'', ''B'', ''C'']
   \<and> texts_of BodyBlock (the (exportDocument ev_written_editor)) = [''first draft'', '''', ''third'']
   \<and> ed_sections (loadProject ok_load 1 initial_editor ev_written_db) = sections ev_written_db"
    by (auto simp: ev_written_editor_def ev_written_db_def ev_project_def ev_section_def)
  from exportDocument_topic_and_sections_once [OF p2]
  have b: "exportDocument ev_deck_editor =
       Some (PptxFile ''EV market analysis.pptx''
              [[(''EV market analysis'', TopicBox)],
               [(''A'', TitleBox), (''first draft'', BodyBox)],
               [(''B'', TitleBox), ('''', BodyBox)],
               [(''C'', TitleBox), (''third'', BodyBox)]])
   \<and> texts_of BodyBlock (the (exportDocument ev_deck_editor)) = [''first draft'', '''', ''third'']"
    by (auto simp: ev_deck_editor_def ev_written_editor_def ev_written_db_def ev_project_def
          ev_section_def)
  from a b show ?thesis by blast
qed


subsection \<open>Frames of the store primitives\<close>

lemma sections_update_project_status [simp]:
  "sections (fst (update_project_status outcome pid st d)) = sections d"
  by (simp add: update_project_status_def split: option.splits)

lemma order_positions_update_section_content [simp]:
  "order_positions (fst (update_section_content outcome sid new d)) = order_positions d"
  by (simp add: update_section_content_def order_positions_def comp_def split: option.splits)

lemma order_positions_insert_refinement [simp]:
  "order_positions (fst (insert_refinement outcome sid p prev new d)) = order_positions d"
  by (simp add: insert_refinement_def order_positions_def split: option.splits)

lemma order_positions_upsert_feedback [simp]:
  "order_positions (fst (upsert_feedback outcome pl d)) = order_positions d"
  by (simp add: upsert_feedback_def order_positions_def split: option.splits)

lemma order_positions_generate_content_fn [simp]:
  "order_positions (fst (generate_content_fn upstream pid tp dt listed d)) = order_positions d"
  by (simp add: generate_content_fn_def order_positions_def comp_def split: gen_outcome.splits)

lemma order_positions_update_project_status [simp]:
  "order_positions (fst (update_project_status outcome pid st d)) = order_positions d"
  by (simp add: order_positions_def)

lemma order_positions_refine_content_handler:
  "order_positions (fst (refine_content_handler env req d)) = order_positions d"
  by (simp add: refine_content_handler_def Let_def split: sum.splits ai_response.splits)

lemma order_positions_generateAllContent:
  "\<forall>x \<in> set (snd (generateAllContent env pid ed d)). order_positions x = order_positions d"
  by (simp add: generateAllContent_def Let_def split: option.splits)

lemma order_positions_handleFeedback:
  "order_positions (fst (handleFeedback outcome sid b d)) = order_positions d"
  by (simp add: handleFeedback_def)

lemma order_positions_saveComment:
  "order_positions (fst (saveComment outcome sid ed d)) = order_positions d"
  by (simp add: saveComment_def split: option.splits)

lemma order_positions_delete_section:
  "order_positions (delete_section sid d) = filter (\<lambda>(i, k). i \<noteq> sid) (order_positions d)"
  by (simp add: delete_section_def order_positions_def filter_map comp_def)

subsection \<open>Project creation\<close>

lemma map_snd_enumerate_fun: "map (\<lambda>p. f (snd p)) (enumerate n xs) = map f xs"
  by (induction xs arbitrary: n) simp_all

lemma map_fst_enumerate_fun:
  "map (\<lambda>p. f (fst p)) (enumerate n xs) = map f [n..<n + length xs]"
proof -
  have "map (\<lambda>p. f (fst p)) (enumerate n xs) = map (f \<circ> fst) (enumerate n xs)"
    by (simp add: comp_def)
  also have "\<dots> = map f (map fst (enumerate n xs))"
    by (simp only: map_map)
  also have "\<dots> = map f [n..<n + length xs]"
    by (simp only: map_fst_enumerate)
  finally show ?thesis .
qed

lemma order_index_new_section_rows:
  "map s_order_index (new_section_rows base rows) = map si_order_index rows"
  by (simp add: new_section_rows_def comp_def case_prod_unfold map_snd_enumerate_fun)

lemma title_new_section_rows:
  "map s_title (new_section_rows base rows) = map si_title rows"
  by (simp add: new_section_rows_def comp_def case_prod_unfold map_snd_enumerate_fun)

lemma project_new_section_rows:
  "map s_project_id (new_section_rows base rows) = map si_project_id rows"
  by (simp add: new_section_rows_def comp_def case_prod_unfold map_snd_enumerate_fun)

lemma order_index_sectionsData:
  "map si_order_index (sectionsData pid titles) = map int [0..<length titles]"
  by (simp add: sectionsData_def comp_def case_prod_unfold map_fst_enumerate_fun)

lemma title_sectionsData:
  "map si_title (sectionsData pid titles) = map trim titles"
  by (simp add: sectionsData_def comp_def case_prod_unfold map_snd_enumerate_fun)

lemma project_sectionsData:
  "map si_project_id (sectionsData pid titles) = replicate (length titles) pid"
  by (simp add: sectionsData_def comp_def case_prod_unfold map_replicate_const)

lemma handleSubmit_Created:
  assumes "handleSubmit env user c d = (d', Created pid)"
  shows "\<exists>uid. user = Some uid \<and> pid = gen_random_uuid (map p_id (projects d)) \<and>
           trim (topic c) \<noteq> [] \<and> \<not> list_ex (\<lambda>s. trim s = []) (cfg_sections c) \<and>
           projects d' = projects d @
               [\<lparr>p_id = pid, p_user_id = uid, p_document_type = documentType c,
                 p_topic = trim (topic c), p_status = Draft\<rparr>] \<and>
           sections d' = sections d @
               new_section_rows (gen_random_uuid (map s_id (sections d)))
                 (sectionsData pid (cfg_sections c)) \<and>
           refinement_history d' = refinement_history d \<and> feedback d' = feedback d"
  using assms
  by (auto simp: handleSubmit_def insert_project_def insert_sections_def Let_def
           split: if_splits option.splits)


lemma select_sections_of_created:
  assumes new: "sections d' = sections d @ new"
    and pos: "map s_order_index new = map int [0..<n]"
    and prj: "\<forall>s \<in> set new. s_project_id s = pid"
    and old: "\<forall>s \<in> set (sections d). s_project_id s \<noteq> pid"
  shows "select_sections pid d' = new"
proof -
  have "filter (\<lambda>s. s_project_id s = pid) (sections d) = []"
    using old by (simp add: filter_empty_conv)
  moreover have "filter (\<lambda>s. s_project_id s = pid) new = new"
    using prj by (simp add: filter_id_conv)
  ultimately have "select_sections pid d' = sort_key s_order_index new"
    by (simp add: select_sections_def new)
  moreover have "sorted (map s_order_index new)"
    by (simp add: pos sorted_iff_nth_mono)
  ultimately show ?thesis by (simp add: sort_key_id_if_sorted)
qed

text \<open>
  C4. A project created from \<open>n\<close> section titles gets \<open>n\<close> new section rows whose order
  positions are \<open>0, \<dots>, n - 1\<close> in the order of the titles, each title trimmed. No later
  operation writes an order position: the refine endpoint, bulk generation, the two
  feedback writes and the deletion of a section leave the position of every remaining
  section as it was, so a gap left by a deletion stays.
\<close>

theorem creation_positions_never_renumbered:
  assumes "handleSubmit env user c d = (d', Created pid)"
  shows "(\<exists>new. sections d' = sections d @ new
            \<and> map s_order_index new = map int [0..<length (cfg_sections c)]
            \<and> map s_title new = map trim (cfg_sections c)
            \<and> map s_project_id new = replicate (length (cfg_sections c)) pid)
      \<and> ((\<forall>s \<in> set (sections d). s_project_id s \<in> set (map p_id (projects d))) \<longrightarrow>
            map s_order_index (select_sections pid d') = map int [0..<length (cfg_sections c)])
      \<and> order_positions (delete_section sid d') = filter (\<lambda>(i, k). i \<noteq> sid) (order_positions d')
      \<and> order_positions (fst (refine_content_handler renv req d')) = order_positions d'
      \<and> (\<forall>x \<in> set (snd (generateAllContent genv gpid ed d')). order_positions x = order_positions d')
      \<and> order_positions (fst (handleFeedback o1 sid1 b d')) = order_positions d'
      \<and> order_positions (fst (saveComment o2 sid2 ed2 d')) = order_positions d'"
proof -
  define new where
    "new = new_section_rows (gen_random_uuid (map s_id (sections d))) (sectionsData pid (cfg_sections c))"
  from handleSubmit_Created [OF assms]
  have pid: "pid = gen_random_uuid (map p_id (projects d))"
    and secs: "sections d' = sections d @ new"
    by (auto simp: new_def)
  have pos: "map s_order_index new = map int [0..<length (cfg_sections c)]"
    by (simp add: new_def order_index_new_section_rows order_index_sectionsData)
  have ttl: "map s_title new = map trim (cfg_sections c)"
    by (simp add: new_def title_new_section_rows title_sectionsData)
  have prj: "map s_project_id new = replicate (length (cfg_sections c)) pid"
    by (simp add: new_def project_new_section_rows project_sectionsData)
  have prj': "\<forall>s \<in> set new. s_project_id s = pid"
  proof
    fix s assume "s \<in> set new"
    then have "s_project_id s \<in> set (map s_project_id new)" by simp
    then show "s_project_id s = pid" by (simp add: prj)
  qed
  have sel: "(\<forall>s \<in> set (sections d). s_project_id s \<in> set (map p_id (projects d))) \<longrightarrow>
            map s_order_index (select_sections pid d') = map int [0..<length (cfg_sections c)]"
  proof
    assume fk: "\<forall>s \<in> set (sections d). s_project_id s \<in> set (map p_id (projects d))"
    have "pid \<notin> set (map p_id (projects d))"
      unfolding pid by (rule gen_random_uuid_fresh)
    with fk have "\<forall>s \<in> set (sections d). s_project_id s \<noteq> pid" by metis
    from select_sections_of_created [OF secs pos prj' this]
    show "map s_order_index (select_sections pid d') = map int [0..<length (cfg_sections c)]"
      by (simp add: pos)
  qed
  from secs pos ttl prj
  have "\<exists>new. sections d' = sections d @ new
            \<and> map s_order_index new = map int [0..<length (cfg_sections c)]
            \<and> map s_title new = map trim (cfg_sections c)
            \<and> map s_project_id new = replicate (length (cfg_sections c)) pid"
    by blast
  with sel order_positions_generateAllContent [of genv gpid ed d'] show ?thesis
    by (simp only: order_positions_delete_section order_positions_refine_content_handler
          order_positions_handleFeedback order_positions_saveComment simp_thms)
qed



theorem creation_positions_never_renumbered_witness:
  "handleSubmit ok_submit (Some 7) ev_configure empty_db = (ev_db, Created 1)
   \<and> map s_order_index (sections ev_db) = [0, 1, 2]
   \<and> map s_title (sections ev_db) = [''A'', ''B'', ''C'']
   \<and> map s_order_index (select_sections 1 ev_db) = [0, 1, 2]
   \<and> order_positions (delete_section 2 ev_db) = [(1, 0), (3, 2)]
   \<and> order_positions (fst (refine_content_handler (refine_ok ''better'') (refine_post ''shorter'')
                              (delete_section 2 ev_db))) = [(1, 0), (3, 2)]"
proof -
  have h: "handleSubmit ok_submit (Some 7) ev_configure empty_db = (ev_db, Created 1)"
    by (simp add: handleSubmit_def ok_submit_def ev_configure_def empty_db_def ev_db_def
          ev_project_def ev_section_def insert_project_def insert_sections_def
          sectionsData_def new_section_rows_def gen_random_uuid_def trim_def is_space_def Let_def)
  have p: "order_positions (delete_section 2 ev_db) = [(1, 0), (3, 2)]"
    by (simp add: ev_db_def ev_section_def order_positions_def delete_section_def)
  have r: "order_positions (fst (refine_content_handler (refine_ok ''better'')
             (refine_post ''shorter'') (delete_section 2 ev_db))) = [(1, 0), (3, 2)]"
    by (simp add: order_positions_refine_content_handler p)
  from creation_positions_never_renumbered [OF h]
  have "map s_order_index (select_sections 1 ev_db) = map int [0..<length (cfg_sections ev_configure)]"
    by (simp add: empty_db_def)
  then have s: "map s_order_index (select_sections 1 ev_db) = [0, 1, 2]"
    by (simp add: ev_configure_def upt_rec)
  show ?thesis
    using h p r s by (simp add: ev_db_def ev_section_def)
qed

subsection \<open>Outline generation\<close>

text \<open>
  C8. An invocation of the outline generator leaves the persisted state as it was. On the
  configuration screen only the list of proposed titles can change: it becomes the outline
  when the topic is not blank and the upstream call succeeds, and stays as it was
  otherwise. The titles reach the store only when the caller submits the form, which
  stores them trimmed.
\<close>

theorem generateOutline_persists_nothing:
  "snd (generateOutline upstream c d) = d
   \<and> snd (generate_outline_fn upstream tp dt d) = upstream
   \<and> fst (generate_outline_fn upstream tp dt d) = d
   \<and> documentType (fst (generateOutline upstream c d)) = documentType c
   \<and> topic (fst (generateOutline upstream c d)) = topic c
   \<and> cfg_sections (fst (generateOutline upstream c d)) =
        (case upstream of
           Inl e \<Rightarrow> cfg_sections c
         | Inr outline \<Rightarrow> if trim (topic c) = [] then cfg_sections c else outline)
   \<and> (handleSubmit env user (fst (generateOutline (Inr outline) c d)) d = (d', Created pid) \<longrightarrow>
        map s_title (drop (length (sections d)) (sections d')) = map trim outline)"
proof -
  have "handleSubmit env user (fst (generateOutline (Inr outline) c d)) d = (d', Created pid) \<longrightarrow>
        map s_title (drop (length (sections d)) (sections d')) = map trim outline"
  proof
    assume a: "handleSubmit env user (fst (generateOutline (Inr outline) c d)) d = (d', Created pid)"
    let ?c = "fst (generateOutline (Inr outline) c d)"
    from handleSubmit_Created [OF a]
    have t: "trim (topic ?c) \<noteq> []"
      and s: "sections d' = sections d @
               new_section_rows (gen_random_uuid (map s_id (sections d)))
                 (sectionsData pid (cfg_sections ?c))"
      by auto
    have "topic ?c = topic c"
      by (simp add: generateOutline_def generate_outline_fn_def)
    with t have "cfg_sections ?c = outline"
      by (simp add: generateOutline_def generate_outline_fn_def)
    with s show "map s_title (drop (length (sections d)) (sections d')) = map trim outline"
      by (simp add: title_new_section_rows title_sectionsData)
  qed
  then show ?thesis
    by (simp add: generateOutline_def generate_outline_fn_def split: sum.splits)
qed

theorem generateOutline_persists_nothing_witness:
  "generateOutline (Inr [''Market'', ''Outlook'']) ev_configure ev_db =
      (ev_configure\<lparr>cfg_sections := [''Market'', ''Outlook'']\<rparr>, ev_db)
   \<and> generateOutline (Inl ''upstream failed'') ev_configure ev_db = (ev_configure, ev_db)
   \<and> fst (handleSubmit ok_submit (Some 7)
            (fst (generateOutline (Inr [''Market'', ''Outlook'']) ev_configure empty_db)) empty_db)
       = ev_db\<lparr>sections := [ev_section 1 0 ''Market'' None, ev_section 2 1 ''Outlook'' None]\<rparr>"
  using generateOutline_persists_nothing [of "Inr [''Market'', ''Outlook'']" ev_configure ev_db]
  by (simp add: generateOutline_def generate_outline_fn_def ev_configure_def trim_def is_space_def
        handleSubmit_def ok_submit_def empty_db_def ev_db_def
        ev_project_def ev_section_def insert_project_def insert_sections_def
        sectionsData_def new_section_rows_def gen_random_uuid_def Let_def)

subsection \<open>The list of section titles\<close>

lemma removeSection_refused_on_last:
  "length (cfg_sections c) \<le> 1 \<Longrightarrow> removeSection index c = c"
  by (simp add: removeSection_def)

lemma removeSection_nonempty:
  assumes "cfg_sections c \<noteq> []"
  shows "cfg_sections (removeSection index c) \<noteq> []"
proof (cases "length (cfg_sections c) > 1")
  case False
  with assms show ?thesis by (simp add: removeSection_def)
next
  case True
  define j :: nat where "j = (if index = 0 then 1 else 0)"
  have "j \<noteq> index" "j < length (cfg_sections c)"
    using True by (auto simp: j_def)
  then have "(j, cfg_sections c ! j) \<in> set (filter (\<lambda>(i, _). i \<noteq> index) (enumerate 0 (cfg_sections c)))"
    by (simp add: in_set_enumerate_eq)
  then have "filter (\<lambda>(i, _). i \<noteq> index) (enumerate 0 (cfg_sections c)) \<noteq> []"
    by force
  with True show ?thesis by (simp add: removeSection_def)
qed

lemma addSection_nonempty: "cfg_sections (addSection c) \<noteq> []"
  by (simp add: addSection_def)

lemma handleSubmit_rejects_blank_title:
  "list_ex (\<lambda>s. trim s = []) (cfg_sections c) \<Longrightarrow> handleSubmit env user c d = (d, FillInAllFields)"
  by (simp add: handleSubmit_def)

text \<open>
  C10. The claim fails on an empty outline: \<open>generateOutline\<close> stores whatever list the
  upstream call answers, the empty one included, and \<open>handleSubmit\<close> rejects blank titles but
  not an empty list. The submission below succeeds and creates a project without sections.
\<close>

theorem empty_outline_creates_project_without_sections:
  "cfg_sections (fst (generateOutline (Inr []) ev_configure empty_db)) = []
   \<and> handleSubmit ok_submit (Some 7) (fst (generateOutline (Inr []) ev_configure empty_db)) empty_db
       = (\<lparr>projects = [ev_project], sections = [], refinement_history = [], feedback = []\<rparr>,
          Created 1)"
  by (simp add: generateOutline_def generate_outline_fn_def ev_configure_def trim_def is_space_def
        handleSubmit_def ok_submit_def empty_db_def ev_project_def insert_project_def
        insert_sections_def sectionsData_def new_section_rows_def gen_random_uuid_def Let_def)


subsection \<open>Project status\<close>

lemma find_update_status:
  "find (\<lambda>p. p_id p = pid) (map (\<lambda>p. if p_id p = pid then p\<lparr>p_status := st\<rparr> else p) ps)
     = map_option (\<lambda>p. p\<lparr>p_status := st\<rparr>) (find (\<lambda>p. p_id p = pid) ps)"
  by (induction ps) simp_all

lemma find_append_list:
  "find P (xs @ ys) = (case find P xs of None \<Rightarrow> find P ys | Some x \<Rightarrow> Some x)"
  by (induction xs) simp_all

lemma status_of_update_applied:
  "status_of pid (fst (update_project_status None pid st d)) = map_option (\<lambda>s. st) (status_of pid d)"
  by (simp add: status_of_def update_project_status_def find_update_status option.map_comp comp_def)

lemma status_of_update_rejected:
  "status_of pid (fst (update_project_status (Some e) pid st d)) = status_of pid d"
  by (simp add: update_project_status_def)

lemma projects_generate_content_fn [simp]:
  "projects (fst (generate_content_fn upstream pid tp dt listed d)) = projects d"
  by (simp add: generate_content_fn_def split: gen_outcome.splits)

lemma status_of_generate_content_fn [simp]:
  "status_of pid' (fst (generate_content_fn upstream pid tp dt listed d)) = status_of pid' d"
  by (simp add: status_of_def)

lemma generate_content_fn_failed [simp]:
  "generate_content_fn (GenFailed e) pid tp dt listed d = (d, Some e)"
  by (simp add: generate_content_fn_def)

lemma generate_content_fn_ok [simp]:
  "snd (generate_content_fn (GenOk f) pid tp dt listed d) = None"
  by (simp add: generate_content_fn_def)

lemma projects_refine_content_handler:
  "projects (fst (refine_content_handler env req d)) = projects d"
  by (simp add: refine_content_handler_def insert_refinement_def update_section_content_def Let_def
           split: sum.splits ai_response.splits option.splits)

lemma projects_upsert_feedback:
  "projects (fst (upsert_feedback outcome pl d)) = projects d"
  by (simp add: upsert_feedback_def split: option.splits)

lemma projects_handleFeedback:
  "projects (fst (handleFeedback outcome sid b d)) = projects d"
  by (simp add: handleFeedback_def projects_upsert_feedback)

lemma projects_saveComment:
  "projects (fst (saveComment outcome sid ed d)) = projects d"
  by (simp add: saveComment_def projects_upsert_feedback split: option.splits)

lemma status_of_Created:
  assumes "handleSubmit env user c d = (d', Created pid)"
  shows "status_of pid d' = Some Draft"
proof -
  from handleSubmit_Created [OF assms] obtain uid where
    pid: "pid = gen_random_uuid (map p_id (projects d))"
    and prj: "projects d' = projects d @
               [\<lparr>p_id = pid, p_user_id = uid, p_document_type = documentType c,
                 p_topic = trim (topic c), p_status = Draft\<rparr>]"
    by blast
  have "pid \<notin> set (map p_id (projects d))"
    unfolding pid by (rule gen_random_uuid_fresh)
  then have "find (\<lambda>p. p_id p = pid) (projects d) = None"
    by (auto simp: find_None_iff)
  then show ?thesis
    by (simp add: status_of_def prj find_append_list)
qed

lemma generateAllContent_failed_trace:
  assumes "ed_project ed = Some p" and "gen_upstream env = GenFailed e"
  shows "snd (generateAllContent env pid ed d) =
           [fst (update_project_status (write_generating env) pid Generating d),
            fst (update_project_status (write_generating env) pid Generating d),
            fst (update_project_status (write_draft env) pid Draft
                   (fst (update_project_status (write_generating env) pid Generating d)))]"
  using assms by (simp add: generateAllContent_def Let_def)

lemma generateAllContent_ok_trace:
  assumes "ed_project ed = Some p" and "gen_upstream env = GenOk f"
  shows "map (status_of pid) (snd (generateAllContent env pid ed d)) =
           [status_of pid (fst (update_project_status (write_generating env) pid Generating d)),
            status_of pid (fst (update_project_status (write_generating env) pid Generating d)),
            status_of pid (fst (update_project_status (write_completed env) pid Completed
                   (fst (generate_content_fn (GenOk f) pid (p_topic p) (p_document_type p)
                          (map (\<lambda>s. (s_id s, s_title s)) (ed_sections ed))
                          (fst (update_project_status (write_generating env) pid Generating d))))))]"
  using assms by (simp add: generateAllContent_def Let_def)


lemma find_update_status_other:
  "q \<noteq> pid \<Longrightarrow>
   find (\<lambda>p. p_id p = q) (map (\<lambda>p. if p_id p = pid then p\<lparr>p_status := st\<rparr> else p) ps)
     = find (\<lambda>p. p_id p = q) ps"
  by (induction ps) simp_all

lemma status_of_update_other:
  "q \<noteq> pid \<Longrightarrow> status_of q (fst (update_project_status outcome pid st d)) = status_of q d"
  by (simp add: status_of_def update_project_status_def find_update_status_other split: option.splits)

lemma status_of_generateAllContent_other:
  assumes "q \<noteq> pid"
  shows "\<forall>x \<in> set (snd (generateAllContent env pid ed d)). status_of q x = status_of q d"
  using assms
  by (simp add: generateAllContent_def Let_def status_of_update_other split: option.splits)

lemma handleSubmit_keeps_statuses:
  assumes "status_of q d = Some s"
  shows "status_of q (fst (handleSubmit env user c d)) = Some s"
proof -
  from assms obtain x where x: "find (\<lambda>p. p_id p = q) (projects d) = Some x" "p_status x = s"
    by (auto simp: status_of_def)
  then show ?thesis
    by (simp add: handleSubmit_def insert_project_def insert_sections_def Let_def status_of_def
          find_append_list split: option.splits)
qed

text \<open>
  C2, as amended. When the upstream call of the bulk generation fails, the status of the
  project afterwards is \<open>Draft\<close> if the store applies the rollback write. The result of that
  write is not inspected: if the store rejects it, the status is \<open>Generating\<close> when the
  first write was applied and is left as it was before the action otherwise.
\<close>

theorem generateAllContent_failure_rolls_back:
  assumes "ed_project ed = Some p" and "gen_upstream env = GenFailed e"
    and "status_of pid d = Some s"
  shows "status_of pid (final_db d (snd (generateAllContent env pid ed d))) =
           (case write_draft env of
              None \<Rightarrow> Some Draft
            | Some e2 \<Rightarrow> (case write_generating env of None \<Rightarrow> Some Generating | Some e1 \<Rightarrow> Some s))"
  using assms
  by (simp add: generateAllContent_failed_trace final_db_def status_of_update_applied
        status_of_update_rejected split: option.splits)

theorem generateAllContent_failure_rolls_back_witness:
  "ed_project ev_editor = Some ev_project \<and> gen_upstream gen_failing = GenFailed ''upstream failed''
   \<and> status_of 1 ev_db = Some Draft
   \<and> map (status_of 1) (snd (generateAllContent gen_failing 1 ev_editor ev_db)) =
        [Some Generating, Some Generating, Some Draft]
   \<and> status_of 1 (final_db ev_db (snd (generateAllContent gen_failing 1 ev_editor ev_db))) = Some Draft"
  using generateAllContent_failure_rolls_back [of ev_editor ev_project gen_failing "''upstream failed''" 1 ev_db Draft]
  by (simp add: ev_editor_def ev_db_def ev_project_def gen_failing_def status_of_def
        generateAllContent_def generate_content_fn_def update_project_status_def final_db_def Let_def)

text \<open>
  The claim as stated fails when the store rejects the rollback write: the upstream call
  fails, and the status afterwards is \<open>Generating\<close>.
\<close>

theorem rollback_write_rejected_counterexample:
  "gen_upstream (gen_failing\<lparr>write_draft := Some ''store unreachable''\<rparr>) = GenFailed ''upstream failed''
   \<and> status_of 1 ev_db = Some Draft
   \<and> status_of 1 (final_db ev_db (snd (generateAllContent
                       (gen_failing\<lparr>write_draft := Some ''store unreachable''\<rparr>) 1 ev_editor ev_db)))
       = Some Generating"
  by (simp add: ev_editor_def ev_db_def ev_project_def gen_failing_def status_of_def
        generateAllContent_def generate_content_fn_def update_project_status_def final_db_def Let_def)


lemma fst_invoke_refine_content:
  "fst (invoke_refine_content env body d) =
     fst (refine_content_handler env \<lparr>rq_method = POST, rq_body = Inr body\<rparr> d)"
  by (simp add: invoke_refine_content_def split: prod.splits refine_response.splits)

lemma refineSection_db_cases:
  "snd (fst (refineSection env lenv pid sid ed d)) = d \<or>
   (\<exists>body. snd (fst (refineSection env lenv pid sid ed d)) = fst (invoke_refine_content env body d))"
proof (cases "refinementPrompts ed sid")
  case None
  then show ?thesis by (simp add: refineSection_def)
next
  case (Some prompt)
  show ?thesis
  proof (cases "trim prompt = [] \<or> find (\<lambda>s. s_id s = sid) (ed_sections ed) = None")
    case True
    with Some show ?thesis by (auto simp: refineSection_def)
  next
    case False
    then obtain found where sec: "find (\<lambda>s. s_id s = sid) (ed_sections ed) = Some found"
      and tr: "trim prompt \<noteq> []"
      by auto
    let ?body = "\<lparr>rb_sectionId = sid, rb_prompt = prompt,
                  rb_currentContent = s_content found, rb_title = s_title found\<rparr>"
    have "snd (fst (refineSection env lenv pid sid ed d)) = fst (invoke_refine_content env ?body d)"
      using Some sec tr
      by (cases "invoke_refine_content env ?body d")
         (simp add: refineSection_def split: sum.splits)
    then show ?thesis by blast
  qed
qed

lemma db_of_refineSection:
  "projects (snd (fst (refineSection env lenv pid sid ed d))) = projects d"
  using refineSection_db_cases [of env lenv pid sid ed d]
  by (auto simp: fst_invoke_refine_content projects_refine_content_handler)

text \<open>
  The status writes. A created project has the status \<open>Draft\<close>. The only later status writes
  are those of \<open>generateAllContent\<close>: started on a project in \<open>Draft\<close>, with every write
  applied by the store, the status is \<open>Generating\<close> after the first request and after the
  upstream call, and then \<open>Completed\<close> if the upstream call succeeded and \<open>Draft\<close> if it
  failed. The statuses of other projects are left alone, and creation, the refine
  endpoint, the feedback writes and outline generation change no status.
\<close>

theorem status_written_only_by_creation_and_generation:
  "(handleSubmit senv user c d = (d', Created pid) \<longrightarrow> status_of pid d' = Some Draft)
   \<and> (ed_project ed = Some p \<and> status_of pid d = Some Draft \<and> write_generating env = None \<and>
        write_completed env = None \<and> write_draft env = None \<longrightarrow>
        map (status_of pid) (snd (generateAllContent env pid ed d)) =
          [Some Generating, Some Generating,
           Some (case gen_upstream env of GenFailed e \<Rightarrow> Draft | GenOk f \<Rightarrow> Completed)])
   \<and> (q \<noteq> pid \<longrightarrow>
        (\<forall>x \<in> set (snd (generateAllContent env pid ed d)). status_of q x = status_of q d))
   \<and> (status_of q d = Some s \<longrightarrow> status_of q (fst (handleSubmit senv user c d)) = Some s)
   \<and> projects (fst (refine_content_handler renv req d)) = projects d
   \<and> projects (snd (fst (refineSection renv lenv pid sid ed d))) = projects d
   \<and> projects (fst (handleFeedback o1 sid b d)) = projects d
   \<and> projects (fst (saveComment o2 sid ed d)) = projects d
   \<and> projects (snd (generateOutline u c d)) = projects d"
proof -
  have gen: "ed_project ed = Some p \<and> status_of pid d = Some Draft \<and> write_generating env = None \<and>
        write_completed env = None \<and> write_draft env = None \<longrightarrow>
        map (status_of pid) (snd (generateAllContent env pid ed d)) =
          [Some Generating, Some Generating,
           Some (case gen_upstream env of GenFailed e \<Rightarrow> Draft | GenOk f \<Rightarrow> Completed)]"
  proof (cases "gen_upstream env")
    case (GenFailed e)
    then show ?thesis
      by (auto simp: generateAllContent_failed_trace status_of_update_applied)
  next
    case (GenOk f)
    then show ?thesis
      by (auto simp: generateAllContent_ok_trace status_of_update_applied)
  qed
  have out: "projects (snd (generateOutline u c d)) = projects d"
    by (simp add: generateOutline_def generate_outline_fn_def split: sum.splits)
  show ?thesis
    using gen out status_of_generateAllContent_other [of q pid env ed d]
      handleSubmit_keeps_statuses [of q d s senv user c]
    by (simp add: status_of_Created projects_refine_content_handler db_of_refineSection
          projects_handleFeedback projects_saveComment)
qed

theorem status_written_only_by_creation_and_generation_witness:
  "handleSubmit ok_submit (Some 7) ev_configure empty_db = (ev_db, Created 1)
   \<and> status_of 1 ev_db = Some Draft
   \<and> map (status_of 1) (snd (generateAllContent gen_ok 1 ev_editor ev_db)) =
        [Some Generating, Some Generating, Some Completed]
   \<and> map (status_of 1) (snd (generateAllContent gen_failing 1 ev_editor ev_db)) =
        [Some Generating, Some Generating, Some Draft]"
proof -
  have h: "handleSubmit ok_submit (Some 7) ev_configure empty_db = (ev_db, Created 1)"
    by (simp add: handleSubmit_def ok_submit_def ev_configure_def empty_db_def ev_db_def
          ev_project_def ev_section_def insert_project_def insert_sections_def
          sectionsData_def new_section_rows_def gen_random_uuid_def trim_def is_space_def Let_def)
  have e: "ed_project ev_editor = Some ev_project"
    by (simp add: ev_editor_def)
  have g: "write_generating gen_ok = None" "write_completed gen_ok = None"
    "write_draft gen_ok = None" "gen_upstream gen_ok = GenOk (\<lambda>i. ''generated'')"
    by (simp_all add: gen_ok_def)
  have s1: "status_of 1 ev_db = Some Draft"
    using status_written_only_by_creation_and_generation
            [of ok_submit "Some 7" ev_configure empty_db ev_db 1] h
    by simp
  have f: "write_generating gen_failing = None" "write_completed gen_failing = None"
    "write_draft gen_failing = None" "gen_upstream gen_failing = GenFailed ''upstream failed''"
    by (simp_all add: gen_failing_def)
  from status_written_only_by_creation_and_generation
         [where pid = 1 and ed = ev_editor and p = ev_project and d = ev_db and env = gen_ok]
    e g s1
  have t1: "map (status_of 1) (snd (generateAllContent gen_ok 1 ev_editor ev_db)) =
        [Some Generating, Some Generating, Some Completed]"
    by simp
  from status_written_only_by_creation_and_generation
         [where pid = 1 and ed = ev_editor and p = ev_project and d = ev_db and env = gen_failing]
    e f s1
  have t2: "map (status_of 1) (snd (generateAllContent gen_failing 1 ev_editor ev_db)) =
        [Some Generating, Some Generating, Some Draft]"
    by simp
  from h s1 t1 t2 show ?thesis by simp
qed

lemma lifecycle_ok_successively: "lifecycle_ok xs = successively step_ok xs"
  by (induction xs rule: lifecycle_ok.induct) (auto simp: step_ok_def split: option.splits)

lemma successively_through:
  assumes "successively P xs" and "xs \<noteq> []" and "successively P (last xs # ys)"
  shows "successively P (xs @ ys)"
  using assms by (cases ys) (auto simp: successively_append_iff successively_Cons)

lemma step_ok_refl: "step_ok x x"
  by (cases x) (simp_all add: step_ok_def)

lemma successively_same:
  assumes "\<forall>x \<in> set tr. f x = f d"
  shows "successively step_ok (map f (d # tr))"
  using assms
proof (induction tr arbitrary: d)
  case Nil
  show ?case by simp
next
  case (Cons x tr)
  then have "f x = f d" and "\<forall>y \<in> set tr. f y = f x" by auto
  with Cons.IH [of x] show ?case by (simp add: step_ok_refl)
qed


lemma settled_same:
  assumes "settled d" and "projects x = projects d" and "section_flags x = section_flags d"
  shows "settled x"
  using assms by (simp add: settled_def)

lemma status_of_same: "projects x = projects d \<Longrightarrow> status_of q x = status_of q d"
  by (simp add: status_of_def)

lemma frame_step:
  assumes "settled d"
    and "\<forall>x \<in> set tr. projects x = projects d \<and> section_flags x = section_flags d"
  shows "settled (final_db d tr) \<and> successively step_ok (map (status_of q) (d # tr))"
proof
  have "final_db d tr \<in> set (d # tr)"
    unfolding final_db_def by (rule last_in_set) simp
  then have "final_db d tr = d \<or> final_db d tr \<in> set tr" by simp
  then show "settled (final_db d tr)"
  proof
    assume "final_db d tr = d"
    with assms(1) show ?thesis by simp
  next
    assume "final_db d tr \<in> set tr"
    with assms(2) have "projects (final_db d tr) = projects d"
      and "section_flags (final_db d tr) = section_flags d"
      by blast+
    with assms(1) show ?thesis by (rule settled_same)
  qed
  have "\<forall>x \<in> set tr. status_of q x = status_of q d"
    using assms(2) status_of_same by blast
  then show "successively step_ok (map (status_of q) (d # tr))"
    by (rule successively_same)
qed

lemma section_flags_update_section_content [simp]:
  "section_flags (fst (update_section_content outcome sid new d)) = section_flags d"
  by (simp add: update_section_content_def section_flags_def comp_def split: option.splits)

lemma section_flags_insert_refinement [simp]:
  "section_flags (fst (insert_refinement outcome sid p prev new d)) = section_flags d"
  by (simp add: insert_refinement_def section_flags_def split: option.splits)

lemma section_flags_update_project_status [simp]:
  "section_flags (fst (update_project_status outcome pid st d)) = section_flags d"
  by (simp add: section_flags_def)

lemma section_flags_refine_content_handler:
  "section_flags (fst (refine_content_handler env req d)) = section_flags d"
  by (simp add: refine_content_handler_def Let_def split: sum.splits ai_response.splits)

lemma section_flags_refineSection:
  "section_flags (snd (fst (refineSection env lenv pid sid ed d))) = section_flags d"
  using refineSection_db_cases [of env lenv pid sid ed d]
  by (auto simp: fst_invoke_refine_content section_flags_refine_content_handler)

lemma section_flags_upsert_feedback:
  "section_flags (fst (upsert_feedback outcome pl d)) = section_flags d"
  by (simp add: upsert_feedback_def section_flags_def split: option.splits)

lemma section_flags_handleFeedback:
  "section_flags (fst (handleFeedback outcome sid b d)) = section_flags d"
  by (simp add: handleFeedback_def section_flags_upsert_feedback)

lemma section_flags_saveComment:
  "section_flags (fst (saveComment outcome sid ed d)) = section_flags d"
  by (simp add: saveComment_def section_flags_upsert_feedback split: option.splits)

lemma perform_Refine_frame:
  "\<forall>x \<in> set (perform (Refine lenv env pid sid prompt) d).
      projects x = projects d \<and> section_flags x = section_flags d"
  by (simp add: Let_def db_of_refineSection section_flags_refineSection)

lemma perform_Like_frame:
  "\<forall>x \<in> set (perform (Like lenv outcome pid sid isLiked) d).
      projects x = projects d \<and> section_flags x = section_flags d"
  by (simp add: Let_def projects_handleFeedback section_flags_handleFeedback)

lemma perform_Comment_frame:
  "\<forall>x \<in> set (perform (Comment lenv outcome pid sid comment) d).
      projects x = projects d \<and> section_flags x = section_flags d"
  by (simp add: Let_def projects_saveComment section_flags_saveComment)

lemma fk_sectionsData:
  assumes "pid \<in> P"
  shows "\<not> list_ex (\<lambda>r. si_project_id r \<notin> P) (sectionsData pid titles)"
proof
  assume "list_ex (\<lambda>r. si_project_id r \<notin> P) (sectionsData pid titles)"
  then obtain r where r: "r \<in> set (sectionsData pid titles)" and n: "si_project_id r \<notin> P"
    by (auto simp: list_ex_iff)
  from r have "si_project_id r \<in> set (map si_project_id (sectionsData pid titles))"
    by simp
  then have "si_project_id r = pid"
    by (simp add: project_sectionsData)
  with n assms show False by simp
qed

lemma handleSubmit_applied:
  assumes "project_insert env = None" and "sections_insert env = None"
  shows "fst (handleSubmit env user c d) = d \<or>
         (\<exists>pid. handleSubmit env user c d = (fst (handleSubmit env user c d), Created pid))"
proof (cases "trim (topic c) = [] \<or> list_ex (\<lambda>s. trim s = []) (cfg_sections c) \<or> user = None")
  case True
  then show ?thesis by (auto simp: handleSubmit_def)
next
  case False
  then obtain uid where u: "user = Some uid" by auto
  let ?pid = "gen_random_uuid (map p_id (projects d))"
  let ?d1 = "fst (insert_project None uid (documentType c) (trim (topic c)) Draft d)"
  have "?pid \<in> set (map p_id (projects ?d1))"
    by (simp add: insert_project_def Let_def)
  then have "\<not> list_ex (\<lambda>r. si_project_id r \<notin> set (map p_id (projects ?d1)))
                 (sectionsData ?pid (cfg_sections c))"
    by (rule fk_sectionsData)
  then have "snd (handleSubmit env user c d) = Created ?pid"
    using False u assms
    by (simp add: handleSubmit_def insert_project_def insert_sections_def Let_def)
  then show ?thesis by (metis prod.collapse)
qed

lemma perform_Submit_step:
  assumes c: "carried_out (Submit env user c)" and s: "settled d"
  shows "settled (final_db d (perform (Submit env user c) d)) \<and>
         successively step_ok (map (status_of q) (d # perform (Submit env user c) d))"
proof -
  let ?d1 = "fst (handleSubmit env user c d)"
  from c have env: "project_insert env = None" "sections_insert env = None"
    and ne: "cfg_sections c \<noteq> []"
    by simp_all
  have fin: "final_db d (perform (Submit env user c) d) = ?d1"
    by (simp add: final_db_def)
  have tr: "map (status_of q) (d # perform (Submit env user c) d) = [status_of q d, status_of q ?d1]"
    by simp
  from handleSubmit_applied [OF env, of user c d]
  have "settled ?d1 \<and> step_ok (status_of q d) (status_of q ?d1)"
  proof
    assume "?d1 = d"
    with s show ?thesis by (simp add: step_ok_refl)
  next
    assume "\<exists>pid. handleSubmit env user c d = (?d1, Created pid)"
    then obtain pid where h: "handleSubmit env user c d = (?d1, Created pid)" by blast
    define new where
      "new = new_section_rows (gen_random_uuid (map s_id (sections d))) (sectionsData pid (cfg_sections c))"
    from handleSubmit_Created [OF h] obtain uid where
      pid: "pid = gen_random_uuid (map p_id (projects d))"
      and prj: "projects ?d1 = projects d @
               [\<lparr>p_id = pid, p_user_id = uid, p_document_type = documentType c,
                 p_topic = trim (topic c), p_status = Draft\<rparr>]"
      and secs: "sections ?d1 = sections d @ new"
      unfolding new_def by blast
    have flags: "section_flags ?d1 = section_flags d @ map (\<lambda>s. (s_project_id s, s_is_generated s)) new"
      by (simp add: section_flags_def secs)
    have "map s_project_id new = replicate (length (cfg_sections c)) pid"
      by (simp add: new_def project_new_section_rows project_sectionsData)
    with ne have "pid \<in> set (map s_project_id new)"
      by simp
    then have newhas: "pid \<in> set (map fst (section_flags ?d1))"
      by (simp add: flags comp_def)
    have "settled ?d1"
      unfolding settled_def
    proof
      fix p assume "p \<in> set (projects ?d1)"
      then have "p \<in> set (projects d) \<or>
                 p = \<lparr>p_id = pid, p_user_id = uid, p_document_type = documentType c,
                       p_topic = trim (topic c), p_status = Draft\<rparr>"
        by (auto simp: prj)
      then show "p_id p \<in> set (map fst (section_flags ?d1)) \<and>
                 (p_status p = Draft \<or>
                  p_status p = Completed \<and> (p_id p, True) \<in> set (section_flags ?d1))"
      proof
        assume "p \<in> set (projects d)"
        with s have "p_id p \<in> set (map fst (section_flags d)) \<and>
                 (p_status p = Draft \<or>
                  p_status p = Completed \<and> (p_id p, True) \<in> set (section_flags d))"
          by (simp add: settled_def)
        then show ?thesis by (auto simp: flags)
      next
        assume "p = \<lparr>p_id = pid, p_user_id = uid, p_document_type = documentType c,
                       p_topic = trim (topic c), p_status = Draft\<rparr>"
        with newhas show ?thesis by simp
      qed
    qed
    moreover have "step_ok (status_of q d) (status_of q ?d1)"
    proof (cases "status_of q d")
      case (Some st)
      then have "status_of q ?d1 = Some st" by (rule handleSubmit_keeps_statuses)
      with Some show ?thesis by (simp add: step_ok_def)
    next
      case None
      then have "find (\<lambda>p. p_id p = q) (projects d) = None"
        by (simp add: status_of_def)
      then have "status_of q ?d1 = (if pid = q then Some Draft else None)"
        by (simp add: status_of_def prj find_append_list)
      with None show ?thesis by (simp add: step_ok_def)
    qed
    ultimately show ?thesis by blast
  qed
  with fin tr show ?thesis by simp
qed

lemma section_flags_generated:
  "section_flags (fst (generate_content_fn (GenOk f) pid tp dt listed d)) =
     map (\<lambda>s. (s_project_id s, s_is_generated s \<or> s_id s \<in> set (map fst listed))) (sections d)"
proof -
  let ?g = "\<lambda>s. if s_id s \<in> set (map fst listed)
                 then s\<lparr>s_content := Some (f (s_id s)), s_is_generated := True\<rparr> else s"
  have "(\<lambda>s. (s_project_id (?g s), s_is_generated (?g s))) =
        (\<lambda>s. (s_project_id s, s_is_generated s \<or> s_id s \<in> set (map fst listed)))"
    by (rule ext) simp
  moreover have "section_flags (fst (generate_content_fn (GenOk f) pid tp dt listed d)) =
        map (\<lambda>s. (s_project_id (?g s), s_is_generated (?g s))) (sections d)"
    by (simp add: generate_content_fn_def section_flags_def comp_def)
  ultimately show ?thesis by simp
qed

lemma section_flags_gen_failed [simp]:
  "section_flags (fst (generate_content_fn (GenFailed e) pid tp dt listed d)) = section_flags d"
  by simp

lemma flags_gen_mono:
  assumes "(x, True) \<in> set (section_flags d)"
  shows "(x, True) \<in> set (section_flags (fst (generate_content_fn up pid tp dt listed d)))"
proof (cases up)
  case (GenFailed e)
  with assms show ?thesis by simp
next
  case (GenOk f)
  from assms obtain s where "s \<in> set (sections d)" "s_project_id s = x" "s_is_generated s"
    by (auto simp: section_flags_def)
  then have "(x, True) \<in> (\<lambda>s. (s_project_id s, s_is_generated s \<or> s_id s \<in> set (map fst listed)))
                       ` set (sections d)"
    by force
  with GenOk show ?thesis by (simp add: section_flags_generated)
qed

lemma flags_gen_fst:
  "map fst (section_flags (fst (generate_content_fn up pid tp dt listed d))) =
   map fst (section_flags d)"
proof (cases up)
  case (GenFailed e)
  then show ?thesis by simp
next
  case (GenOk f)
  have "map fst (section_flags (fst (generate_content_fn (GenOk f) pid tp dt listed d))) =
          map s_project_id (sections d)"
    by (simp add: section_flags_generated comp_def)
  also have "\<dots> = map fst (section_flags d)"
    by (simp add: section_flags_def comp_def)
  finally show ?thesis using GenOk by simp
qed

lemma flags_gen_listed:
  assumes "s \<in> set (sections d)" and "s_id s \<in> set (map fst listed)"
  shows "(s_project_id s, True) \<in>
           set (section_flags (fst (generate_content_fn (GenOk f) pid tp dt listed d)))"
proof -
  from assms have "(s_project_id s, True) \<in>
        (\<lambda>s. (s_project_id s, s_is_generated s \<or> s_id s \<in> set (map fst listed))) ` set (sections d)"
    by force
  then show ?thesis by (simp add: section_flags_generated)
qed

lemma projects_after_update:
  "set (projects (fst (update_project_status None pid st d))) =
     (\<lambda>p. if p_id p = pid then p\<lparr>p_status := st\<rparr> else p) ` set (projects d)"
  by (simp add: update_project_status_def)

lemma perform_Generate_step:
  assumes c: "carried_out (Generate lenv env pid)" and s: "settled d"
  shows "settled (final_db d (perform (Generate lenv env pid) d)) \<and>
         successively step_ok (map (status_of q) (d # perform (Generate lenv env pid) d))"
proof (cases "find (\<lambda>p. p_id p = pid) (projects d)")
  case None
  then have "perform (Generate lenv env pid) d = []"
    by (simp add: loadProject_def initial_editor_def generateAllContent_def split: option.splits)
  with s show ?thesis by (simp add: final_db_def)
next
  case (Some p)
  from c have reads: "project_select lenv = None" "sections_select lenv = None"
    and writes: "write_generating env = None" "write_completed env = None" "write_draft env = None"
    by simp_all
  let ?ed = "initial_editor\<lparr>ed_project := Some p, ed_sections := select_sections pid d\<rparr>"
  have ed: "loadProject lenv pid initial_editor d = ?ed"
    using reads Some by (rule loadProject_sections)
  show ?thesis
  proof (cases "list_ex s_is_generated (select_sections pid d)")
    case True
    then have "perform (Generate lenv env pid) d = []"
      by (simp add: ed)
    with s show ?thesis by (simp add: final_db_def)
  next
    case False
    let ?listed = "map (\<lambda>s. (s_id s, s_title s)) (select_sections pid d)"
    define X where "X = (case gen_upstream env of GenFailed e \<Rightarrow> Draft | GenOk f \<Rightarrow> Completed)"
    define d1 where "d1 = fst (update_project_status None pid Generating d)"
    define d2 where
      "d2 = fst (generate_content_fn (gen_upstream env) pid (p_topic p) (p_document_type p) ?listed d1)"
    define d3 where "d3 = fst (update_project_status None pid X d2)"
    have tr: "perform (Generate lenv env pid) d = [d1, d2, d3]"
      using False writes
      by (cases "gen_upstream env")
         (simp_all add: ed generateAllContent_def Let_def X_def d1_def d2_def d3_def)
    have pin: "p \<in> set (projects d)" and pid: "p_id p = pid"
      using Some by (auto simp: find_Some_iff)
    have nogen: "(pid, True) \<notin> set (section_flags d)"
    proof
      assume "(pid, True) \<in> set (section_flags d)"
      then obtain s0 where "s0 \<in> set (sections d)" "s_project_id s0 = pid" "s_is_generated s0"
        by (auto simp: section_flags_def)
      then have "s0 \<in> set (select_sections pid d)" "s_is_generated s0"
        by (simp_all add: set_select_sections)
      with False show False by (auto simp: list_ex_iff)
    qed
    from s pin have "p_status p = Draft \<or>
         p_status p = Completed \<and> (p_id p, True) \<in> set (section_flags d)"
      by (simp add: settled_def)
    with nogen pid have draft: "p_status p = Draft" by auto
    have st0: "status_of pid d = Some Draft"
      by (simp add: status_of_def Some draft)
    have f1: "section_flags d1 = section_flags d"
      by (simp add: d1_def)
    have f3: "section_flags d3 = section_flags d2"
      by (simp add: d3_def)
    have ffst: "map fst (section_flags d3) = map fst (section_flags d)"
      by (simp add: f3 d2_def flags_gen_fst f1)
    have steps: "successively step_ok (map (status_of q) (d # [d1, d2, d3]))"
    proof (cases "q = pid")
      case True
      have "status_of pid d1 = Some Generating"
        by (simp add: d1_def status_of_update_applied st0)
      moreover have "status_of pid d2 = Some Generating"
        using calculation by (simp add: d2_def)
      moreover have "status_of pid d3 = Some X"
        using calculation by (simp add: d3_def status_of_update_applied)
      ultimately show ?thesis
        using True st0
        by (cases "gen_upstream env") (simp_all add: step_ok_def allowed_transition_def X_def)
    next
      case False
      have "status_of q d1 = status_of q d"
        using False by (simp add: d1_def status_of_update_other)
      moreover have "status_of q d2 = status_of q d1"
        by (simp add: d2_def)
      moreover have "status_of q d3 = status_of q d2"
        using False by (simp add: d3_def status_of_update_other)
      ultimately have "\<forall>x \<in> set [d1, d2, d3]. status_of q x = status_of q d"
        by simp
      then show ?thesis by (rule successively_same)
    qed
    have "settled d3"
      unfolding settled_def
    proof
      fix p' assume "p' \<in> set (projects d3)"
      then obtain p1 where p1: "p1 \<in> set (projects d2)"
        and p': "p' = (if p_id p1 = pid then p1\<lparr>p_status := X\<rparr> else p1)"
        unfolding d3_def projects_after_update by blast
      from p1 have "p1 \<in> set (projects d1)"
        by (simp add: d2_def)
      then obtain p0 where p0: "p0 \<in> set (projects d)"
        and p1': "p1 = (if p_id p0 = pid then p0\<lparr>p_status := Generating\<rparr> else p0)"
        unfolding d1_def projects_after_update by blast
      from s p0 have has: "p_id p0 \<in> set (map fst (section_flags d))"
        and stat: "p_status p0 = Draft \<or>
                   p_status p0 = Completed \<and> (p_id p0, True) \<in> set (section_flags d)"
        by (simp_all add: settled_def)
      show "p_id p' \<in> set (map fst (section_flags d3)) \<and>
            (p_status p' = Draft \<or>
             p_status p' = Completed \<and> (p_id p', True) \<in> set (section_flags d3))"
      proof (cases "p_id p0 = pid")
        case False
        then have same: "p' = p0" by (simp add: p' p1')
        from stat have "p_status p0 = Draft \<or>
                   p_status p0 = Completed \<and> (p_id p0, True) \<in> set (section_flags d3)"
          by (auto simp: f3 d2_def f1 [symmetric] intro: flags_gen_mono)
        with has show ?thesis by (simp add: same ffst)
      next
        case True
        then have id': "p_id p' = pid" and st': "p_status p' = X"
          by (simp_all add: p' p1')
        from has True have inflags: "p_id p' \<in> set (map fst (section_flags d3))"
          by (simp add: ffst id')
        show ?thesis
        proof (cases "gen_upstream env")
          case (GenFailed e)
          then have "X = Draft" by (simp add: X_def)
          with inflags st' show ?thesis by simp
        next
          case (GenOk f)
          then have x: "X = Completed" by (simp add: X_def)
          from has True obtain s0 where s0: "s0 \<in> set (sections d)" "s_project_id s0 = pid"
            by (auto simp: section_flags_def)
          then have "s0 \<in> set (select_sections pid d)"
            by (simp add: set_select_sections)
          then have l: "s_id s0 \<in> set (map fst ?listed)"
            by force
          have s1: "s0 \<in> set (sections d1)"
            using s0 by (simp add: d1_def)
          from flags_gen_listed [OF s1 l, of f pid "p_topic p" "p_document_type p"]
          have "(pid, True) \<in> set (section_flags d3)"
            using s0 GenOk by (simp add: f3 d2_def)
          with inflags st' x id' show ?thesis by simp
        qed
      qed
    qed
    with steps tr show ?thesis by (simp add: final_db_def)
  qed
qed

lemma perform_step:
  assumes "carried_out a" and "settled d"
  shows "settled (final_db d (perform a d)) \<and>
         successively step_ok (map (status_of q) (d # perform a d))"
proof (cases a)
  case (Submit env user c)
  with assms show ?thesis using perform_Submit_step by blast
next
  case (Generate lenv env pid)
  with assms show ?thesis using perform_Generate_step by blast
next
  case (Refine lenv env pid sid prompt)
  with assms(2) show ?thesis using frame_step perform_Refine_frame by blast
next
  case (Like lenv outcome pid sid isLiked)
  with assms(2) show ?thesis using frame_step perform_Like_frame by blast
next
  case (Comment lenv outcome pid sid comment)
  with assms(2) show ?thesis using frame_step perform_Comment_frame by blast
qed

lemma run_steps:
  assumes "list_all carried_out as" and "settled d"
  shows "successively step_ok (map (status_of q) (d # run as d))"
  using assms
proof (induction as arbitrary: d)
  case Nil
  show ?case by simp
next
  case (Cons a as)
  let ?tr = "perform a d"
  let ?d' = "final_db d ?tr"
  from Cons.prems have a: "carried_out a" and rest: "list_all carried_out as" by simp_all
  from perform_step [OF a Cons.prems(2), of q]
  have st: "settled ?d'" and here: "successively step_ok (map (status_of q) (d # ?tr))"
    by blast+
  from Cons.IH [OF rest st]
  have there: "successively step_ok (map (status_of q) (?d' # run as ?d'))" .
  have "last (map (status_of q) (d # ?tr)) = status_of q ?d'"
    by (simp only: final_db_def last_map list.simps(3) not_False_eq_True)
  with there have "successively step_ok
      (last (map (status_of q) (d # ?tr)) # map (status_of q) (run as ?d'))"
    by simp
  with here have "successively step_ok
      (map (status_of q) (d # ?tr) @ map (status_of q) (run as ?d'))"
    by (intro successively_through) simp_all
  then show ?case by (simp add: Let_def)
qed

lemma settled_empty_db: "settled empty_db"
  by (simp add: settled_def empty_db_def)

text \<open>
  Where every read and write of a sequence of actions is carried out by the store and no
  project is submitted with an empty list of titles, the status of every project follows
  the lifecycle: it starts in \<open>Draft\<close>, and every change is one of \<open>Draft\<close> to
  \<open>Generating\<close>, \<open>Generating\<close> to \<open>Completed\<close> and \<open>Generating\<close> to \<open>Draft\<close>.
\<close>

theorem lifecycle_of_carried_out_runs:
  assumes "list_all carried_out as"
  shows "lifecycle_ok (map (status_of q) (empty_db # run as empty_db))"
  using run_steps [OF assms settled_empty_db] by (simp only: lifecycle_ok_successively)

theorem lifecycle_of_carried_out_runs_witness:
  "list_all carried_out [Submit ok_submit (Some 7) ev_configure, Generate ok_load gen_failing 1,
                         Generate ok_load gen_ok 1, Generate ok_load gen_ok 1]
   \<and> map (status_of 1)
       (empty_db # run [Submit ok_submit (Some 7) ev_configure, Generate ok_load gen_failing 1,
                        Generate ok_load gen_ok 1, Generate ok_load gen_ok 1] empty_db)
     = [None, Some Draft, Some Generating, Some Generating, Some Draft,
        Some Generating, Some Generating, Some Completed]
   \<and> lifecycle_ok [None, Some Draft, Some Generating, Some Generating, Some Draft,
                    Some Generating, Some Generating, Some Completed]"
proof -
  have c: "list_all carried_out [Submit ok_submit (Some 7) ev_configure, Generate ok_load gen_failing 1,
                         Generate ok_load gen_ok 1, Generate ok_load gen_ok 1]"
    by (simp add: ok_submit_def ok_load_def gen_failing_def gen_ok_def ev_configure_def)
  have r: "map (status_of 1)
       (empty_db # run [Submit ok_submit (Some 7) ev_configure, Generate ok_load gen_failing 1,
                        Generate ok_load gen_ok 1, Generate ok_load gen_ok 1] empty_db)
     = [None, Some Draft, Some Generating, Some Generating, Some Draft,
        Some Generating, Some Generating, Some Completed]"
    by (simp add: handleSubmit_def ok_submit_def ev_configure_def empty_db_def
        insert_project_def insert_sections_def sectionsData_def new_section_rows_def
        gen_random_uuid_def trim_def is_space_def Let_def ok_load_def gen_ok_def gen_failing_def
        loadProject_def select_sections_def initial_editor_def generateAllContent_def
        generate_content_fn_def update_project_status_def final_db_def status_of_def)
  from lifecycle_of_carried_out_runs [OF c, of 1] r c show ?thesis by simp
qed

text \<open>
  C7. The status of a project is to start in \<open>Draft\<close> and to change only from \<open>Draft\<close> to
  \<open>Generating\<close>, from \<open>Generating\<close> to \<open>Completed\<close> and from \<open>Generating\<close> to \<open>Draft\<close>. Two
  sequences of actions break this. In the first the store rejects the first write of the
  generation, whose result \<open>generateAllContent\<close> does not look at, and applies the last: the
  status goes from \<open>Draft\<close> to \<open>Completed\<close>. In the second every request is applied: the
  project is created from an empty outline, so no section can carry the generated flag, the
  Generate button stays, and a second generation takes the status from \<open>Completed\<close> to
  \<open>Generating\<close>.
\<close>

theorem status_lifecycle_broken:
  "map (status_of 1)
     (empty_db # run [Submit ok_submit (Some 7) ev_configure,
                      Generate ok_load (gen_ok\<lparr>write_generating := Some ''store unreachable''\<rparr>) 1]
                     empty_db)
     = [None, Some Draft, Some Draft, Some Draft, Some Completed]
   \<and> \<not> lifecycle_ok [None, Some Draft, Some Draft, Some Draft, Some Completed]
   \<and> map (status_of 1)
       (empty_db # run [Submit ok_submit (Some 7) (fst (generateOutline (Inr []) ev_configure empty_db)),
                        Generate ok_load gen_ok 1, Generate ok_load gen_ok 1]
                       empty_db)
     = [None, Some Draft, Some Generating, Some Generating, Some Completed,
        Some Generating, Some Generating, Some Completed]
   \<and> \<not> lifecycle_ok [None, Some Draft, Some Generating, Some Generating, Some Completed,
                        Some Generating, Some Generating, Some Completed]"
  by (simp add: handleSubmit_def ok_submit_def ev_configure_def empty_db_def
        insert_project_def insert_sections_def sectionsData_def new_section_rows_def
        gen_random_uuid_def trim_def is_space_def Let_def ok_load_def gen_ok_def
        loadProject_def select_sections_def initial_editor_def generateAllContent_def
        generate_content_fn_def update_project_status_def final_db_def status_of_def
        generateOutline_def generate_outline_fn_def allowed_transition_def)


subsection \<open>The refine-content endpoint\<close>

lemma refine_content_handler_Success:
  assumes "refine_content_handler env req d = (d', Success c)"
  shows "\<exists>body. rq_method req = POST \<and> rq_body req = Inr body \<and> ai env = Completion c \<and>
           d' = fst (update_section_content (section_update env) (rb_sectionId body) c
                  (fst (insert_refinement (history_insert env) (rb_sectionId body)
                         (rb_prompt body) (rb_currentContent body) c d)))"
proof -
  have m: "rq_method req = POST"
    using assms by (cases "rq_method req") (simp_all add: refine_content_handler_def)
  from assms m obtain body where b: "rq_body req = Inr body"
    by (cases "rq_body req") (simp_all add: refine_content_handler_def)
  from assms m b have k: "\<not> (case LOVABLE_API_KEY env of None \<Rightarrow> True | Some k \<Rightarrow> k = [])"
    by (auto simp: refine_content_handler_def split: if_splits)
  from assms m b k have "ai env = Completion c \<and>
           d' = fst (update_section_content (section_update env) (rb_sectionId body) c
                  (fst (insert_refinement (history_insert env) (rb_sectionId body)
                         (rb_prompt body) (rb_currentContent body) c d)))"
    by (cases "ai env") (simp_all add: refine_content_handler_def Let_def)
  with m b show ?thesis by blast
qed

lemma refine_content_handler_ErrorResponse:
  assumes "refine_content_handler env req d = (d', ErrorResponse m)"
  shows "d' = d"
proof (cases "rq_method req")
  case OPTIONS
  with assms show ?thesis by (simp add: refine_content_handler_def)
next
  case POST
  show ?thesis
  proof (cases "rq_body req")
    case (Inl e)
    with assms POST show ?thesis by (simp add: refine_content_handler_def)
  next
    case (Inr body)
    show ?thesis
    proof (cases "case LOVABLE_API_KEY env of None \<Rightarrow> True | Some k \<Rightarrow> k = []")
      case True
      with assms POST Inr show ?thesis by (simp add: refine_content_handler_def)
    next
      case False
      with assms POST Inr show ?thesis
        by (cases "ai env") (simp_all add: refine_content_handler_def Let_def)
    qed
  qed
qed

lemma refine_content_handler_response:
  "snd (refine_content_handler env req d) =
     (if rq_method req = OPTIONS then PreflightOk
      else case rq_body req of
             Inl e \<Rightarrow> ErrorResponse e
           | Inr body \<Rightarrow>
               if (case LOVABLE_API_KEY env of None \<Rightarrow> True | Some k \<Rightarrow> k = [])
               then ErrorResponse ''LOVABLE_API_KEY not configured''
               else (case ai env of
                       FetchFailed e \<Rightarrow> ErrorResponse e
                     | NotOk statusText \<Rightarrow> ErrorResponse (''AI API error: '' @ statusText)
                     | Unparsable e \<Rightarrow> ErrorResponse e
                     | Completion c \<Rightarrow> Success c))"
  by (simp add: refine_content_handler_def Let_def split: sum.splits ai_response.splits)

lemma refine_applied:
  assumes "refine_content_handler env req d = (d', Success c)"
    and "rq_body req = Inr body"
    and "history_insert env = None" and "section_update env = None"
    and "rb_sectionId body \<in> set (map s_id (sections d))"
  shows "refinement_history d' = refinement_history d @
           [\<lparr>r_id = gen_random_uuid (map r_id (refinement_history d)),
             r_section_id = rb_sectionId body, r_prompt = rb_prompt body,
             r_previous_content = rb_currentContent body, r_new_content = c\<rparr>]"
    and "sections d' = map (\<lambda>s. if s_id s = rb_sectionId body then s\<lparr>s_content := Some c\<rparr> else s)
                           (sections d)"
    and "projects d' = projects d" and "feedback d' = feedback d"
  using refine_content_handler_Success [OF assms(1)] assms(2-5)
  by (auto simp: insert_refinement_def update_section_content_def)

lemma content_after_update:
  assumes "s \<in> set (map (\<lambda>x. if s_id x = sid then x\<lparr>s_content := Some c\<rparr> else x) xs)"
    and "s_id s = sid"
  shows "s_content s = Some c"
proof -
  from assms(1) obtain x where x: "s = (if s_id x = sid then x\<lparr>s_content := Some c\<rparr> else x)"
    by (auto simp only: set_map image_iff)
  show ?thesis
  proof (cases "s_id x = sid")
    case True
    with x show ?thesis by simp
  next
    case False
    with x assms(2) show ?thesis by simp
  qed
qed

lemma ids_after_update:
  "map s_id (map (\<lambda>s. if s_id s = sid then s\<lparr>s_content := Some c\<rparr> else s) xs) = map s_id xs"
  by (induction xs) simp_all


text \<open>
  A refine call that the endpoint answers with success, on a section that
  exists and with both writes applied by the store, appends exactly one audit row, holding
  the prompt, the content the caller sent as current and the new content, and makes the new
  content the stored content of that section, leaving the other sections as they were.
  After a second such call on the same section the audit log has grown by the two rows, in
  call order, and the stored content is the second result.
\<close>

theorem refine_appends_one_row_and_overwrites:
  assumes "refine_content_handler env \<lparr>rq_method = POST, rq_body = Inr body\<rparr> d = (d', Success c)"
    and "history_insert env = None" and "section_update env = None"
    and "rb_sectionId body \<in> set (map s_id (sections d))"
  shows "refinement_history d' = refinement_history d @
           [\<lparr>r_id = gen_random_uuid (map r_id (refinement_history d)),
             r_section_id = rb_sectionId body, r_prompt = rb_prompt body,
             r_previous_content = rb_currentContent body, r_new_content = c\<rparr>]
     \<and> sections d' = map (\<lambda>s. if s_id s = rb_sectionId body then s\<lparr>s_content := Some c\<rparr> else s)
                          (sections d)
     \<and> (\<forall>s \<in> set (sections d'). s_id s = rb_sectionId body \<longrightarrow> s_content s = Some c)
     \<and> (refine_content_handler env2 \<lparr>rq_method = POST, rq_body = Inr body2\<rparr> d' = (d'', Success c2) \<and>
          history_insert env2 = None \<and> section_update env2 = None \<and>
          rb_sectionId body2 = rb_sectionId body \<longrightarrow>
          length (refinement_history d'') = length (refinement_history d) + 2 \<and>
          map r_prompt (drop (length (refinement_history d)) (refinement_history d''))
            = [rb_prompt body, rb_prompt body2] \<and>
          map r_new_content (drop (length (refinement_history d)) (refinement_history d''))
            = [c, c2] \<and>
          (\<forall>s \<in> set (sections d''). s_id s = rb_sectionId body \<longrightarrow> s_content s = Some c2))"
proof -
  let ?sid = "rb_sectionId body"
  let ?req = "\<lparr>rq_method = POST, rq_body = Inr body\<rparr>"
  have rb: "rq_body ?req = Inr body" by simp
  note first = refine_applied [OF assms(1) rb assms(2) assms(3) assms(4)]
  have stored: "\<forall>s \<in> set (sections d'). s_id s = ?sid \<longrightarrow> s_content s = Some c"
    using content_after_update [of _ ?sid c "sections d"] by (simp only: first(2)) blast
  have second: "refine_content_handler env2 \<lparr>rq_method = POST, rq_body = Inr body2\<rparr> d' = (d'', Success c2) \<and>
          history_insert env2 = None \<and> section_update env2 = None \<and>
          rb_sectionId body2 = ?sid \<longrightarrow>
          length (refinement_history d'') = length (refinement_history d) + 2 \<and>
          map r_prompt (drop (length (refinement_history d)) (refinement_history d''))
            = [rb_prompt body, rb_prompt body2] \<and>
          map r_new_content (drop (length (refinement_history d)) (refinement_history d''))
            = [c, c2] \<and>
          (\<forall>s \<in> set (sections d''). s_id s = ?sid \<longrightarrow> s_content s = Some c2)"
  proof
    assume a: "refine_content_handler env2 \<lparr>rq_method = POST, rq_body = Inr body2\<rparr> d' = (d'', Success c2) \<and>
          history_insert env2 = None \<and> section_update env2 = None \<and>
          rb_sectionId body2 = ?sid"
    have rb2: "rq_body \<lparr>rq_method = POST, rq_body = Inr body2\<rparr> = Inr body2" by simp
    have ex: "rb_sectionId body2 \<in> set (map s_id (sections d'))"
      using assms(4) a by (simp only: first(2) ids_after_update)
    from a have a1: "refine_content_handler env2 \<lparr>rq_method = POST, rq_body = Inr body2\<rparr> d' = (d'', Success c2)"
      and a2: "history_insert env2 = None" and a3: "section_update env2 = None"
      and a4: "rb_sectionId body2 = ?sid"
      by blast+
    note snd = refine_applied [OF a1 rb2 a2 a3 ex]
    have h: "refinement_history d'' = refinement_history d @
           [\<lparr>r_id = gen_random_uuid (map r_id (refinement_history d)),
             r_section_id = ?sid, r_prompt = rb_prompt body,
             r_previous_content = rb_currentContent body, r_new_content = c\<rparr>,
            \<lparr>r_id = gen_random_uuid (map r_id (refinement_history d')),
             r_section_id = rb_sectionId body2, r_prompt = rb_prompt body2,
             r_previous_content = rb_currentContent body2, r_new_content = c2\<rparr>]"
      by (simp only: snd(1) first(1) append_assoc append.simps)
    have st: "\<forall>s \<in> set (sections d''). s_id s = ?sid \<longrightarrow> s_content s = Some c2"
      using content_after_update [of _ ?sid c2 "sections d'"] by (simp only: snd(2) a4) blast
    show "length (refinement_history d'') = length (refinement_history d) + 2 \<and>
          map r_prompt (drop (length (refinement_history d)) (refinement_history d''))
            = [rb_prompt body, rb_prompt body2] \<and>
          map r_new_content (drop (length (refinement_history d)) (refinement_history d''))
            = [c, c2] \<and>
          (\<forall>s \<in> set (sections d''). s_id s = ?sid \<longrightarrow> s_content s = Some c2)"
      using st by (simp add: h)
  qed
  from first(1) first(2) stored second show ?thesis by blast
qed


theorem refine_appends_one_row_and_overwrites_witness:
  "refinement_history
     (fst (refine_content_handler (refine_ok ''best'')
             \<lparr>rq_method = POST,
              rq_body = Inr \<lparr>rb_sectionId = 1, rb_prompt = ''more formal'',
                             rb_currentContent = Some ''better'', rb_title = ''A''\<rparr>\<rparr>
             (fst (refine_content_handler (refine_ok ''better'') (refine_post ''shorter'')
                     ev_written_db))))
     = [\<lparr>r_id = 1, r_section_id = 1, r_prompt = ''shorter'',
         r_previous_content = Some ''first draft'', r_new_content = ''better''\<rparr>,
        \<lparr>r_id = 2, r_section_id = 1, r_prompt = ''more formal'',
         r_previous_content = Some ''better'', r_new_content = ''best''\<rparr>]
   \<and> map s_content (sections
     (fst (refine_content_handler (refine_ok ''best'')
             \<lparr>rq_method = POST,
              rq_body = Inr \<lparr>rb_sectionId = 1, rb_prompt = ''more formal'',
                             rb_currentContent = Some ''better'', rb_title = ''A''\<rparr>\<rparr>
             (fst (refine_content_handler (refine_ok ''better'') (refine_post ''shorter'')
                     ev_written_db)))))
     = [Some ''best'', None, Some ''third'']"
proof -
  let ?b1 = "\<lparr>rb_sectionId = 1, rb_prompt = ''shorter'',
              rb_currentContent = Some ''first draft'', rb_title = ''A''\<rparr>"
  let ?b2 = "\<lparr>rb_sectionId = 1, rb_prompt = ''more formal'',
              rb_currentContent = Some ''better'', rb_title = ''A''\<rparr>"
  let ?d1 = "fst (refine_content_handler (refine_ok ''better'')
                    \<lparr>rq_method = POST, rq_body = Inr ?b1\<rparr> ev_written_db)"
  let ?d2 = "fst (refine_content_handler (refine_ok ''best'')
                    \<lparr>rq_method = POST, rq_body = Inr ?b2\<rparr> ?d1)"
  have h1: "refine_content_handler (refine_ok ''better'') \<lparr>rq_method = POST, rq_body = Inr ?b1\<rparr>
              ev_written_db = (?d1, Success ''better'')"
    by (simp add: refine_content_handler_def refine_ok_def Let_def)
  have h2: "history_insert (refine_ok ''better'') = None" "section_update (refine_ok ''better'') = None"
    by (simp_all add: refine_ok_def)
  have h3: "rb_sectionId ?b1 \<in> set (map s_id (sections ev_written_db))"
    by (simp add: ev_written_db_def ev_section_def)
  have k1: "refine_content_handler (refine_ok ''best'') \<lparr>rq_method = POST, rq_body = Inr ?b2\<rparr>
              ?d1 = (?d2, Success ''best'')"
    by (simp add: refine_content_handler_def refine_ok_def Let_def)
  have k2: "history_insert (refine_ok ''best'') = None" "section_update (refine_ok ''best'') = None"
    "rb_sectionId ?b2 = rb_sectionId ?b1"
    by (simp_all add: refine_ok_def)
  from refine_appends_one_row_and_overwrites [OF h1 h2 h3, of "refine_ok ''best''" ?b2 ?d2 "''best''"]
    k1 k2
  have "length (refinement_history ?d2) = length (refinement_history ev_written_db) + 2"
    by blast
  then show ?thesis
    by (simp add: refine_post_def refine_content_handler_def refine_ok_def Let_def
          insert_refinement_def update_section_content_def ev_written_db_def ev_section_def
          gen_random_uuid_def)
qed

text \<open>
  C3. Every successful refine call is to append exactly one audit row and to make its
  result the stored content of the section. The endpoint awaits the insert and the update
  without looking at their results: in the execution below the store rejects the insert,
  the endpoint still answers with success and overwrites the stored content, and the audit
  log has no row for the call.
\<close>

theorem refine_success_without_audit_row:
  "snd (refine_content_handler (refine_ok ''better''\<lparr>history_insert := Some ''store unreachable''\<rparr>)
          (refine_post ''shorter'') ev_written_db) = Success ''better''
   \<and> refinement_history
        (fst (refine_content_handler (refine_ok ''better''\<lparr>history_insert := Some ''store unreachable''\<rparr>)
                (refine_post ''shorter'') ev_written_db)) = []
   \<and> map s_content (sections
        (fst (refine_content_handler (refine_ok ''better''\<lparr>history_insert := Some ''store unreachable''\<rparr>)
                (refine_post ''shorter'') ev_written_db))) = [Some ''better'', None, Some ''third'']"
  by (simp add: refine_post_def refine_content_handler_def refine_ok_def Let_def
        insert_refinement_def update_section_content_def ev_written_db_def ev_section_def)

lemma update_section_content_no_match:
  assumes "sid \<notin> set (map s_id (sections d))"
  shows "fst (update_section_content outcome sid c d) = d"
proof (cases outcome)
  case None
  have "map (\<lambda>s. if s_id s = sid then s\<lparr>s_content := Some c\<rparr> else s) (sections d) = sections d"
    using assms by (intro map_idI) auto
  with None show ?thesis by (simp add: update_section_content_def)
next
  case (Some e)
  then show ?thesis by (simp add: update_section_content_def)
qed

lemma insert_refinement_no_section:
  "sid \<notin> set (map s_id (sections d)) \<Longrightarrow> fst (insert_refinement outcome sid p prev c d) = d"
  by (simp add: insert_refinement_def split: option.splits)

lemma sections_insert_refinement [simp]:
  "sections (fst (insert_refinement outcome sid p prev c d)) = sections d"
  by (simp add: insert_refinement_def split: option.splits)

lemma refinement_history_update_section_content [simp]:
  "refinement_history (fst (update_section_content outcome sid c d)) = refinement_history d"
  by (simp add: update_section_content_def split: option.splits)

text \<open>
  C9. The response of the refine endpoint does not depend on what the store answered to
  the two writes, nor on the persisted state: when the request is a well-formed POST, the
  key is configured and the upstream call completes, the response is success with the new
  content. In such an execution a rejected insert leaves the audit log as it was, a rejected
  update leaves the sections as they were, and a section id that matches no section leaves
  the whole persisted state as it was.
\<close>

theorem refine_reports_success_whatever_the_writes_did:
  "snd (refine_content_handler (env\<lparr>history_insert := h, section_update := u\<rparr>) req d2)
     = snd (refine_content_handler env req d)
   \<and> (rq_method req = POST \<and> rq_body req = Inr body \<and> LOVABLE_API_KEY env = Some k \<and> k \<noteq> [] \<and>
        ai env = Completion c \<longrightarrow>
        snd (refine_content_handler env req d) = Success c
        \<and> (history_insert env \<noteq> None \<longrightarrow>
              refinement_history (fst (refine_content_handler env req d)) = refinement_history d)
        \<and> (section_update env \<noteq> None \<longrightarrow>
              sections (fst (refine_content_handler env req d)) = sections d)
        \<and> (rb_sectionId body \<notin> set (map s_id (sections d)) \<longrightarrow>
              fst (refine_content_handler env req d) = d))"
proof -
  have indep: "snd (refine_content_handler (env\<lparr>history_insert := h, section_update := u\<rparr>) req d2)
     = snd (refine_content_handler env req d)"
    by (simp add: refine_content_handler_response
          cong: ai_response.case_cong sum.case_cong option.case_cong if_cong)
  have run: "rq_method req = POST \<and> rq_body req = Inr body \<and> LOVABLE_API_KEY env = Some k \<and> k \<noteq> [] \<and>
        ai env = Completion c \<longrightarrow>
        snd (refine_content_handler env req d) = Success c
        \<and> (history_insert env \<noteq> None \<longrightarrow>
              refinement_history (fst (refine_content_handler env req d)) = refinement_history d)
        \<and> (section_update env \<noteq> None \<longrightarrow>
              sections (fst (refine_content_handler env req d)) = sections d)
        \<and> (rb_sectionId body \<notin> set (map s_id (sections d)) \<longrightarrow>
              fst (refine_content_handler env req d) = d)"
  proof
    assume a: "rq_method req = POST \<and> rq_body req = Inr body \<and> LOVABLE_API_KEY env = Some k \<and>
                k \<noteq> [] \<and> ai env = Completion c"
    then have eq: "refine_content_handler env req d =
             (fst (update_section_content (section_update env) (rb_sectionId body) c
                    (fst (insert_refinement (history_insert env) (rb_sectionId body)
                           (rb_prompt body) (rb_currentContent body) c d))),
              Success c)"
      by (simp add: refine_content_handler_def Let_def)
    have 1: "history_insert env \<noteq> None \<longrightarrow>
              refinement_history (fst (refine_content_handler env req d)) = refinement_history d"
      by (auto simp: eq insert_refinement_def)
    have 2: "section_update env \<noteq> None \<longrightarrow>
              sections (fst (refine_content_handler env req d)) = sections d"
      by (auto simp: eq update_section_content_def)
    have 3: "rb_sectionId body \<notin> set (map s_id (sections d)) \<longrightarrow>
              fst (refine_content_handler env req d) = d"
      by (simp add: eq update_section_content_no_match insert_refinement_no_section)
    from eq 1 2 3 show "snd (refine_content_handler env req d) = Success c
        \<and> (history_insert env \<noteq> None \<longrightarrow>
              refinement_history (fst (refine_content_handler env req d)) = refinement_history d)
        \<and> (section_update env \<noteq> None \<longrightarrow>
              sections (fst (refine_content_handler env req d)) = sections d)
        \<and> (rb_sectionId body \<notin> set (map s_id (sections d)) \<longrightarrow>
              fst (refine_content_handler env req d) = d)"
      by simp
  qed
  from indep run show ?thesis by blast
qed


theorem refine_reports_success_whatever_the_writes_did_witness:
  "refine_content_handler (refine_ok ''better''\<lparr>section_update := Some ''store unreachable''\<rparr>)
      (refine_post ''shorter'') ev_written_db
     = (ev_written_db\<lparr>refinement_history :=
            [\<lparr>r_id = 1, r_section_id = 1, r_prompt = ''shorter'',
              r_previous_content = Some ''first draft'', r_new_content = ''better''\<rparr>]\<rparr>,
        Success ''better'')
   \<and> refine_content_handler
        (refine_ok ''better''\<lparr>history_insert := Some ''store unreachable'',
                               section_update := Some ''store unreachable''\<rparr>)
        (refine_post ''shorter'') ev_written_db
     = (ev_written_db, Success ''better'')
   \<and> refine_content_handler (refine_ok ''better'')
        \<lparr>rq_method = POST,
         rq_body = Inr \<lparr>rb_sectionId = 9, rb_prompt = ''shorter'',
                        rb_currentContent = Some ''first draft'', rb_title = ''A''\<rparr>\<rparr>
        ev_written_db
     = (ev_written_db, Success ''better'')"
  using refine_reports_success_whatever_the_writes_did
          [where env = "refine_ok ''better''\<lparr>section_update := Some ''store unreachable''\<rparr>"
             and h = None and u = None and req = "refine_post ''shorter''"
             and d = ev_written_db
             and body = "\<lparr>rb_sectionId = 1, rb_prompt = ''shorter'',
                           rb_currentContent = Some ''first draft'', rb_title = ''A''\<rparr>"
             and k = "''key''" and c = "''better''"]
  by (simp add: refine_post_def refine_content_handler_def refine_ok_def Let_def
        insert_refinement_def update_section_content_def ev_written_db_def ev_section_def
        gen_random_uuid_def)

subsection \<open>Failure paths\<close>

lemma refineSection_failed:
  assumes "snd (refineSection env lenv pid sid ed d) = FailedToRefine"
  shows "fst (refineSection env lenv pid sid ed d) = (ed, d)"
proof (cases "refinementPrompts ed sid")
  case None
  with assms show ?thesis by (simp add: refineSection_def)
next
  case (Some prompt)
  show ?thesis
  proof (cases "trim prompt = [] \<or> find (\<lambda>s. s_id s = sid) (ed_sections ed) = None")
    case True
    with Some assms show ?thesis by (auto simp: refineSection_def)
  next
    case False
    then obtain found where sec: "find (\<lambda>s. s_id s = sid) (ed_sections ed) = Some found"
      and tr: "trim prompt \<noteq> []"
      by auto
    let ?body = "\<lparr>rb_sectionId = sid, rb_prompt = prompt,
                  rb_currentContent = s_content found, rb_title = s_title found\<rparr>"
    let ?req = "\<lparr>rq_method = POST, rq_body = Inr ?body\<rparr>"
    obtain d' r where h: "refine_content_handler env ?req d = (d', r)"
      by (cases "refine_content_handler env ?req d") blast
    show ?thesis
    proof (cases r)
      case PreflightOk
      with h Some sec tr assms show ?thesis
        by (simp add: refineSection_def invoke_refine_content_def)
    next
      case (Success c)
      with h Some sec tr assms show ?thesis
        by (simp add: refineSection_def invoke_refine_content_def)
    next
      case (ErrorResponse m)
      with h have "d' = d" by (simp add: refine_content_handler_ErrorResponse)
      with h ErrorResponse Some sec tr show ?thesis
        by (simp add: refineSection_def invoke_refine_content_def)
    qed
  qed
qed

lemma handleSubmit_failed_before_sections:
  assumes "handleSubmit env user c d = (d', r)"
    and "r = FillInAllFields \<or> r = MustBeLoggedIn \<or> (\<exists>m. r = FailedToCreate m) \<and> project_insert env \<noteq> None"
  shows "d' = d"
  using assms
  by (auto simp: handleSubmit_def insert_project_def insert_sections_def Let_def
           split: if_splits option.splits)

lemma handleSubmit_failed_at_sections:
  assumes "handleSubmit env user c d = (d', FailedToCreate m)" and "project_insert env = None"
  shows "\<exists>uid. user = Some uid \<and>
           d' = d\<lparr>projects := projects d @
                   [\<lparr>p_id = gen_random_uuid (map p_id (projects d)), p_user_id = uid,
                     p_document_type = documentType c, p_topic = trim (topic c),
                     p_status = Draft\<rparr>]\<rparr>"
  using assms
  by (auto simp: handleSubmit_def insert_project_def insert_sections_def Let_def
           split: if_splits option.splits)

lemma upsert_feedback_rejected: "fst (upsert_feedback (Some e) pl d) = d"
  by (simp add: upsert_feedback_def)


text \<open>
  C5, as amended. A refine call that fails leaves the persisted state as it was: the
  endpoint answers with an error only before its first write, and \<open>refineSection\<close> then
  changes neither the store nor the editor. Outline generation never writes. A submission
  that is rejected by validation, or for want of a login, or whose project insert the
  store rejects, leaves the state as it was, and so does a feedback or comment write the
  store rejects.
\<close>

theorem failed_calls_leave_state_unchanged:
  "(refine_content_handler env req d = (d', ErrorResponse m) \<longrightarrow> d' = d)
   \<and> (snd (refineSection env lenv pid sid ed d) = FailedToRefine \<longrightarrow>
        fst (refineSection env lenv pid sid ed d) = (ed, d))
   \<and> snd (generateOutline upstream c d) = d
   \<and> (handleSubmit senv user c d = (d', r) \<and>
        (r = FillInAllFields \<or> r = MustBeLoggedIn \<or>
         (\<exists>m. r = FailedToCreate m) \<and> project_insert senv \<noteq> None) \<longrightarrow> d' = d)
   \<and> fst (handleFeedback (Some e) sid b d) = d
   \<and> fst (saveComment (Some e) sid ed d) = d"
proof -
  have 1: "refine_content_handler env req d = (d', ErrorResponse m) \<longrightarrow> d' = d"
    using refine_content_handler_ErrorResponse by blast
  have 2: "snd (refineSection env lenv pid sid ed d) = FailedToRefine \<longrightarrow>
        fst (refineSection env lenv pid sid ed d) = (ed, d)"
    using refineSection_failed by blast
  have 3: "snd (generateOutline upstream c d) = d"
    by (simp add: generateOutline_def generate_outline_fn_def split: sum.splits)
  have 4: "handleSubmit senv user c d = (d', r) \<and>
        (r = FillInAllFields \<or> r = MustBeLoggedIn \<or>
         (\<exists>m. r = FailedToCreate m) \<and> project_insert senv \<noteq> None) \<longrightarrow> d' = d"
    using handleSubmit_failed_before_sections [of senv user c d d' r] by blast
  have 6: "fst (handleFeedback (Some e) sid b d) = d"
    by (simp add: handleFeedback_def upsert_feedback_rejected)
  have 7: "fst (saveComment (Some e) sid ed d) = d"
    by (simp add: saveComment_def upsert_feedback_rejected split: option.splits)
  from 1 2 3 4 6 7 show ?thesis by blast
qed

theorem failed_calls_leave_state_unchanged_witness:
  "refine_content_handler (refine_ok ''better''\<lparr>ai := NotOk ''Too Many Requests''\<rparr>)
      (refine_post ''shorter'') ev_written_db
     = (ev_written_db, ErrorResponse ''AI API error: Too Many Requests'')
   \<and> refineSection (refine_ok ''better''\<lparr>ai := NotOk ''Too Many Requests''\<rparr>) ok_load 1 1
        (ev_editor\<lparr>refinementPrompts := [1 \<mapsto> ''shorter'']\<rparr>) ev_written_db
     = ((ev_editor\<lparr>refinementPrompts := [1 \<mapsto> ''shorter'']\<rparr>, ev_written_db), FailedToRefine)
   \<and> handleSubmit \<lparr>project_insert = Some ''store unreachable'', sections_insert = None\<rparr>
        (Some 7) ev_configure ev_db
     = (ev_db, FailedToCreate ''store unreachable'')"
proof -
  let ?env = "refine_ok ''better''\<lparr>ai := NotOk ''Too Many Requests''\<rparr>"
  let ?ed = "ev_editor\<lparr>refinementPrompts := [1 \<mapsto> ''shorter'']\<rparr>"
  let ?senv = "\<lparr>project_insert = Some ''store unreachable'', sections_insert = None\<rparr>"
  have r: "snd (refine_content_handler ?env (refine_post ''shorter'') ev_written_db)
             = ErrorResponse ''AI API error: Too Many Requests''"
    by (simp add: refine_content_handler_response refine_ok_def refine_post_def)
  have t: "snd (refineSection ?env ok_load 1 1 ?ed ev_written_db) = FailedToRefine"
    by (simp add: refineSection_def invoke_refine_content_def refine_content_handler_def
          refine_ok_def ev_editor_def ev_db_def ev_section_def trim_def is_space_def)
  have s: "snd (handleSubmit ?senv (Some 7) ev_configure ev_db) = FailedToCreate ''store unreachable''"
    by (simp add: handleSubmit_def insert_project_def ev_configure_def trim_def is_space_def)
  have p: "project_insert ?senv \<noteq> None" by simp
  from failed_calls_leave_state_unchanged
         [where env = ?env and req = "refine_post ''shorter''" and d = ev_written_db
            and d' = "fst (refine_content_handler ?env (refine_post ''shorter'') ev_written_db)"
            and m = "''AI API error: Too Many Requests''"
            and lenv = ok_load and pid = 1 and sid = 1 and ed = ?ed]
    r t
  have a: "fst (refine_content_handler ?env (refine_post ''shorter'') ev_written_db) = ev_written_db"
    and b: "fst (refineSection ?env ok_load 1 1 ?ed ev_written_db) = (?ed, ev_written_db)"
    by (simp_all add: prod_eq_iff)
  from failed_calls_leave_state_unchanged
         [where senv = ?senv and user = "Some 7" and c = ev_configure and d = ev_db
            and d' = "fst (handleSubmit ?senv (Some 7) ev_configure ev_db)"
            and r = "FailedToCreate ''store unreachable''"]
    s p
  have c: "fst (handleSubmit ?senv (Some 7) ev_configure ev_db) = ev_db"
    by (simp add: prod_eq_iff)
  from a b c r t s show ?thesis
    by (simp add: prod_eq_iff)
qed

text \<open>
  The claim as stated fails on the submission whose insert of the sections the store
  rejects: the handler reports the failure, and the project row inserted before it remains.
\<close>

theorem failed_submit_keeps_project_row_counterexample:
  "handleSubmit \<lparr>project_insert = None, sections_insert = Some ''store unreachable''\<rparr>
      (Some 7) ev_configure empty_db
     = (\<lparr>projects = [ev_project], sections = [], refinement_history = [], feedback = []\<rparr>,
        FailedToCreate ''store unreachable'')
   \<and> \<lparr>projects = [ev_project], sections = [], refinement_history = [], feedback = []\<rparr> \<noteq> empty_db"
  by (simp add: handleSubmit_def ev_configure_def empty_db_def ev_project_def insert_project_def
        insert_sections_def gen_random_uuid_def trim_def is_space_def Let_def)


subsection \<open>Feedback\<close>

lemma upsert_feedback_without_key:
  assumes "fp_id pl = None" and "fp_section_id pl \<in> set (map s_id (sections d))"
  shows "fst (upsert_feedback None pl d) =
           d\<lparr>feedback := feedback d @
               [\<lparr>f_id = gen_random_uuid (map f_id (feedback d)), f_section_id = fp_section_id pl,
                 f_is_liked = fp_is_liked pl, f_comment = fp_comment pl\<rparr>]\<rparr>"
  using assms by (simp add: upsert_feedback_def)

text \<open>
  Both feedback write paths call \<open>upsert\<close> with a payload that carries the
  section id and no primary key, on a table without a uniqueness constraint on the section
  id. When the store applies the write, each act therefore appends one new row that holds
  only the field of its own path, and leaves every earlier row as it was: the rows of a
  section accumulate, one per act, and no path overwrites a field written by the other.
\<close>

theorem feedback_writes_append_rows:
  assumes "sid \<in> set (map s_id (sections d))"
  shows "feedback (fst (handleFeedback None sid b d)) = feedback d @
           [\<lparr>f_id = gen_random_uuid (map f_id (feedback d)), f_section_id = sid,
             f_is_liked = Some b, f_comment = None\<rparr>]
     \<and> length (filter (\<lambda>f. f_section_id f = sid) (feedback (fst (handleFeedback None sid b d))))
         = Suc (length (filter (\<lambda>f. f_section_id f = sid) (feedback d)))
     \<and> (comments ed sid = Some cm \<and> trim cm \<noteq> [] \<longrightarrow>
          feedback (fst (saveComment None sid ed d)) = feedback d @
            [\<lparr>f_id = gen_random_uuid (map f_id (feedback d)), f_section_id = sid,
              f_is_liked = None, f_comment = Some (trim cm)\<rparr>]
          \<and> length (filter (\<lambda>f. f_section_id f = sid) (feedback (fst (saveComment None sid ed d))))
              = Suc (length (filter (\<lambda>f. f_section_id f = sid) (feedback d))))"
proof -
  have like: "feedback (fst (handleFeedback None sid b d)) = feedback d @
           [\<lparr>f_id = gen_random_uuid (map f_id (feedback d)), f_section_id = sid,
             f_is_liked = Some b, f_comment = None\<rparr>]"
    using assms by (simp add: handleFeedback_def upsert_feedback_without_key)
  have comment: "comments ed sid = Some cm \<and> trim cm \<noteq> [] \<longrightarrow>
          feedback (fst (saveComment None sid ed d)) = feedback d @
            [\<lparr>f_id = gen_random_uuid (map f_id (feedback d)), f_section_id = sid,
              f_is_liked = None, f_comment = Some (trim cm)\<rparr>]"
    using assms by (simp add: saveComment_def upsert_feedback_without_key)
  from like comment show ?thesis by simp
qed

theorem feedback_writes_append_rows_witness:
  "feedback (fst (handleFeedback None 1 False
       (fst (saveComment None 1 (ev_editor\<lparr>comments := [1 \<mapsto> '' nice '']\<rparr>)
          (fst (handleFeedback None 1 True ev_written_db))))))
     = [\<lparr>f_id = 1, f_section_id = 1, f_is_liked = Some True, f_comment = None\<rparr>,
        \<lparr>f_id = 2, f_section_id = 1, f_is_liked = None, f_comment = Some ''nice''\<rparr>,
        \<lparr>f_id = 3, f_section_id = 1, f_is_liked = Some False, f_comment = None\<rparr>]"
proof -
  have s: "(1::nat) \<in> set (map s_id (sections ev_written_db))"
    by (simp add: ev_written_db_def ev_section_def)
  from feedback_writes_append_rows [OF s, of True]
  have "feedback (fst (handleFeedback None 1 True ev_written_db)) =
          [\<lparr>f_id = 1, f_section_id = 1, f_is_liked = Some True, f_comment = None\<rparr>]"
    by (simp add: ev_written_db_def gen_random_uuid_def)
  then show ?thesis
    by (simp add: handleFeedback_def saveComment_def upsert_feedback_def ev_written_db_def
          ev_section_def ev_editor_def gen_random_uuid_def trim_def is_space_def)
qed

text \<open>
  C6. Both feedback writes are to be upserts keyed by the section, leaving at most one
  feedback row for a section. Neither payload carries the key the store resolves conflicts
  on: in the execution below, a like followed by a comment on the same section, the second
  write does not meet the row of the first, and the section ends with two feedback rows.
\<close>

theorem feedback_rows_accumulate:
  "feedback (fst (saveComment None 1 (ev_editor\<lparr>comments := [1 \<mapsto> '' nice '']\<rparr>)
               (fst (handleFeedback None 1 True ev_written_db))))
     = [\<lparr>f_id = 1, f_section_id = 1, f_is_liked = Some True, f_comment = None\<rparr>,
        \<lparr>f_id = 2, f_section_id = 1, f_is_liked = None, f_comment = Some ''nice''\<rparr>]
   \<and> length (filter (\<lambda>f. f_section_id f = 1)
         (feedback (fst (saveComment None 1 (ev_editor\<lparr>comments := [1 \<mapsto> '' nice '']\<rparr>)
                      (fst (handleFeedback None 1 True ev_written_db)))))) = 2"
  by (simp add: handleFeedback_def saveComment_def upsert_feedback_def ev_written_db_def
        ev_section_def ev_editor_def gen_random_uuid_def trim_def is_space_def)

end
